theory Spec2Isabelle
  imports Complex_Main "HOL-Library.AList" "HOL-Library.Multiset"
begin

section \<open>Data model (types.ts, api/client.ts, api/markers.ts, App.tsx)\<close>

text \<open>
  A TypeScript \<open>number\<close> that holds a coordinate, a distance or a duration is modelled as
  a \<open>real\<close>: the values come out of \<open>response.json()\<close> or out of the map widget and are
  finite, and \<open>===\<close> on finite numbers is equality of their values. Strings are
  \<open>string\<close>; the one non-ASCII character of the source, the middle dot U+00B7 of the
  label separator, is the single character \<open>CHR 0xB7\<close>.
\<close>

datatype RouteVariantKind = walkSafe | walkAccessible | walkSafeAccessible | driveFast | driveSafe

datatype TravelMode = WALK | DRIVE

record LatLon =
  lat :: real
  lon :: real

text \<open>
  \<open>RouteResult\<close>: the field \<open>routeGeojson\<close> holds what the optional chain
  \<open>result.routeGeojson?.geometry?.coordinates\<close> reads, \<open>None\<close> when it yields undefined.
\<close>

record RouteResult =
  distanceMeters :: real
  durationSeconds :: real
  pathNodeIds :: "int list"
  pathEdgeIds :: "int list"
  routeGeojson :: "(real \<times> real) list option"

datatype RouteResponse =
    RouteOk RouteResult
  | RouteNoRoute string
  | RouteError string "int option"

datatype HazardMarker = HazardMarker string real real

record RouteMarkers =
  hazardMarkers :: "HazardMarker list"
  riskMarkers :: "(real \<times> real) list"

datatype MarkerResponse =
    MarkersOk RouteMarkers
  | MarkersError string "int option"

record MarkerBounds =
  minLat :: real
  maxLat :: real
  minLon :: real
  maxLon :: real

record RouteChoice =
  id' :: string
  kinds :: "RouteVariantKind list"
  result :: RouteResult
  color :: string
  label :: string

datatype GeoStatus = idle | locating | ready | unavailable

datatype PointKind = StartPoint | EndPoint

datatype GeocodeResponse =
    GeocodeOk real real string
  | GeocodeFailed string

datatype ReverseGeocodeResponse =
    ReverseOk string
  | ReverseFailed

text \<open>
  The state of the \<open>App\<close> component: one field for each \<open>useState\<close> cell and each
  \<open>useRef\<close> the claims read. \<open>endPt\<close> is the cell \<open>end\<close>. The ref \<open>startRef\<close> is
  assigned from \<open>start\<close> by an effect after every change of \<open>start\<close>, so the model reads
  \<open>start\<close> where the source reads \<open>startRef.current\<close>. The six coordinate text fields
  (\<open>startLat\<close>, ...), which only hold the strings shown in the inputs, and the cells of the
  hazard upload form are left out.
\<close>

record AppState =
  start :: "LatLon option"
  endPt :: "LatLon option"
  travelMode :: TravelMode
  startPlace :: string
  endPlace :: string
  routeChoices :: "RouteChoice list"
  selectedRouteId :: "string option"
  routeMarkers :: "string \<rightharpoonup> RouteMarkers"
  mapBounds :: "MarkerBounds option"
  loading :: bool
  geocoding :: "PointKind option"
  error :: "string option"
  geoStatus :: GeoStatus
  geoError :: "string option"
  deviceLocation :: "(real \<times> real \<times> real) option"
  hazardPickMode :: bool
  hazardLocation :: "LatLon option"
  hasDefaultedStart :: bool

definition initialState :: AppState where
  "initialState =
     \<lparr> start = None, endPt = None, travelMode = WALK, startPlace = [], endPlace = [],
       routeChoices = [], selectedRouteId = None, routeMarkers = Map.empty, mapBounds = None,
       loading = False, geocoding = None, error = None, geoStatus = idle, geoError = None,
       deviceLocation = None, hazardPickMode = False, hazardLocation = None,
       hasDefaultedStart = False \<rparr>"

section \<open>Constants and helpers of App.tsx\<close>

definition isValidLat :: "real \<Rightarrow> bool" where
  "isValidLat v = (v \<ge> -90 \<and> v \<le> 90)"

definition isValidLon :: "real \<Rightarrow> bool" where
  "isValidLon v = (v \<ge> -180 \<and> v \<le> 180)"

definition isSameLocation :: "LatLon \<Rightarrow> LatLon \<Rightarrow> bool" where
  "isSameLocation a b = (\<bar>lat a - lat b\<bar> < 1 / 1000000 \<and> \<bar>lon a - lon b\<bar> < 1 / 1000000)"

fun kindName :: "RouteVariantKind \<Rightarrow> string" where
  "kindName walkSafe = ''walkSafe''"
| "kindName walkAccessible = ''walkAccessible''"
| "kindName walkSafeAccessible = ''walkSafeAccessible''"
| "kindName driveFast = ''driveFast''"
| "kindName driveSafe = ''driveSafe''"

fun routeKindLabels :: "RouteVariantKind \<Rightarrow> string" where
  "routeKindLabels walkSafe = ''Safe''"
| "routeKindLabels walkAccessible = ''Accessible''"
| "routeKindLabels walkSafeAccessible = ''Safe + Accessible''"
| "routeKindLabels driveFast = ''Fastest''"
| "routeKindLabels driveSafe = ''Safe''"

fun routeColors :: "RouteVariantKind \<Rightarrow> string" where
  "routeColors walkSafe = ''#16a34a''"
| "routeColors walkAccessible = ''#1e3a8a''"
| "routeColors walkSafeAccessible = ''#1f6feb''"
| "routeColors driveFast = ''#1f6feb''"
| "routeColors driveSafe = ''#16a34a''"

text \<open>\<open>Array.prototype.join\<close> on an array of strings.\<close>

fun join :: "string \<Rightarrow> string list \<Rightarrow> string" where
  "join sep [] = []"
| "join sep [x] = x"
| "join sep (x # y # ys) = x @ sep @ join sep (y # ys)"

text \<open>\<open>Array.prototype.findIndex\<close>: the first index whose element satisfies the test, -1 if none.\<close>

fun findIndex :: "('a \<Rightarrow> bool) \<Rightarrow> 'a list \<Rightarrow> int" where
  "findIndex P [] = -1"
| "findIndex P (x # xs) =
     (if P x then 0 else (let i = findIndex P xs in if i < 0 then -1 else i + 1))"

text \<open>
  \<open>String.prototype.trim\<close>: the white space and line terminator code units below
  U+0100, that is tab, line feed, vertical tab, form feed, carriage return, space and
  the no-break space U+00A0.
\<close>

definition isSpace :: "char \<Rightarrow> bool" where
  "isSpace c = (c \<in> set [CHR '' '', CHR 0x09, CHR 0x0A, CHR 0x0B, CHR 0x0C, CHR 0x0D, CHR 0xA0])"

definition trim :: "string \<Rightarrow> string" where
  "trim s = rev (dropWhile isSpace (rev (dropWhile isSpace s)))"

section \<open>handleRoute: the route request\<close>

text \<open>The request order \<open>variants\<close> and the ranking order \<open>kindOrder\<close> of \<open>handleRoute\<close>.\<close>

fun variants :: "TravelMode \<Rightarrow> RouteVariantKind list" where
  "variants DRIVE = [driveFast, driveSafe]"
| "variants WALK = [walkSafe, walkAccessible, walkSafeAccessible]"

fun kindOrder :: "TravelMode \<Rightarrow> RouteVariantKind list" where
  "kindOrder DRIVE = [driveFast, driveSafe]"
| "kindOrder WALK = [walkSafeAccessible, walkSafe, walkAccessible]"

definition clearRouteState :: "AppState \<Rightarrow> AppState" where
  "clearRouteState s =
     s\<lparr> routeChoices := [], selectedRouteId := None, routeMarkers := Map.empty, error := None \<rparr>"

text \<open>
  \<open>Promise.all\<close> over the per-variant promises. The promises never reject
  (\<open>fetchRouteVariant\<close> catches every exception and returns an \<open>error\<close> response), so each
  one is fulfilled once, in some completion order. A completion is the pair of the
  promise's index in the input array and its value; \<open>Promise.all\<close> stores each value at
  its index and resolves with the array of values when no promise is pending.
\<close>

definition promiseAll_store :: "'a option list \<Rightarrow> nat \<times> 'a \<Rightarrow> 'a option list" where
  "promiseAll_store vals c = vals[fst c := Some (snd c)]"

definition promiseAll :: "nat \<Rightarrow> (nat \<times> 'a) list \<Rightarrow> 'a list option" where
  "promiseAll n completions = those (foldl promiseAll_store (replicate n None) completions)"

text \<open>
  The first \<open>forEach\<close> of \<open>handleRoute\<close>: \<open>failureMessage\<close> is the message pushed for a
  response that is not \<open>ok\<close>, \<open>collectStep\<close> the body of the loop on the accumulators
  \<open>(okRoutes, errorMessages)\<close>, and \<open>variants[index]\<close> is read through \<open>zip\<close> (both arrays
  have the same length).
\<close>

fun failureMessage :: "RouteVariantKind \<Rightarrow> RouteResponse \<Rightarrow> string" where
  "failureMessage k (RouteNoRoute message) =
     (if message \<noteq> [] then ''No '' @ routeKindLabels k @ '' route: '' @ message
      else ''No route found.'')"
| "failureMessage k (RouteError message status) = routeKindLabels k @ '' route error: '' @ message"
| "failureMessage k (RouteOk d) = []"

fun collectStep ::
  "(RouteVariantKind \<times> RouteResult) list \<times> string list \<Rightarrow> RouteVariantKind \<times> RouteResponse \<Rightarrow>
   (RouteVariantKind \<times> RouteResult) list \<times> string list" where
  "collectStep (okRoutes, errorMessages) (k, RouteOk d) = (okRoutes @ [(k, d)], errorMessages)"
| "collectStep (okRoutes, errorMessages) (k, r) = (okRoutes, errorMessages @ [failureMessage k r])"

definition collectResponses ::
  "RouteVariantKind list \<Rightarrow> RouteResponse list \<Rightarrow> (RouteVariantKind \<times> RouteResult) list \<times> string list" where
  "collectResponses vs responses = foldl collectStep ([], []) (zip vs responses)"

text \<open>
  The second \<open>forEach\<close>: the \<open>Map\<close> named \<open>consolidated\<close> is an association list in
  insertion order. Its key is \<open>JSON.stringify(coords)\<close>; on arrays of pairs of finite
  numbers two keys are equal exactly when the arrays are equal element by element, so the
  model keys the map by the coordinate list itself. \<open>AList.update\<close> replaces the value of
  a key that is present where it stands (the source pushes onto the entry's \<open>kinds\<close>) and
  appends a new key at the end (\<open>Map.set\<close>).
\<close>

definition coordsOf :: "RouteResult \<Rightarrow> (real \<times> real) list" where
  "coordsOf r = (case routeGeojson r of None \<Rightarrow> [] | Some c \<Rightarrow> c)"

type_synonym consolidatedMap = "((real \<times> real) list \<times> (RouteVariantKind list \<times> RouteResult)) list"

definition consolidateStep :: "consolidatedMap \<Rightarrow> RouteVariantKind \<times> RouteResult \<Rightarrow> consolidatedMap" where
  "consolidateStep m kr =
     (let key = coordsOf (snd kr) in
      case map_of m key of
        Some entry \<Rightarrow> AList.update key (fst entry @ [fst kr], snd entry) m
      | None \<Rightarrow> AList.update key ([fst kr], snd kr) m)"

definition consolidate :: "(RouteVariantKind \<times> RouteResult) list \<Rightarrow> consolidatedMap" where
  "consolidate okRoutes = foldl consolidateStep [] okRoutes"

text \<open>The \<open>map\<close> over \<open>consolidated.values()\<close> that builds one \<open>RouteChoice\<close>.\<close>

definition labelSeparator :: string where
  "labelSeparator = [CHR '' '', CHR 0xB7, CHR '' '']"

definition toChoice :: "TravelMode \<Rightarrow> RouteVariantKind list \<times> RouteResult \<Rightarrow> RouteChoice" where
  "toChoice mode e =
     (let orderedKinds = filter (\<lambda>k. k \<in> set (fst e)) (kindOrder mode) in
      \<lparr> id' = join ''-'' (map kindName orderedKinds),
        kinds = orderedKinds,
        result = snd e,
        color = (case orderedKinds of [] \<Rightarrow> ''#1f6feb'' | k # _ \<Rightarrow> routeColors k),
        label = join labelSeparator (map routeKindLabels orderedKinds) \<rparr>)"

text \<open>
  \<open>choices.sort\<close> with the comparator \<open>aIndex - bIndex\<close>: \<open>Array.prototype.sort\<close> is
  stable, so it is the stable sort on the key \<open>findIndex\<close>.
\<close>

definition choiceRank :: "TravelMode \<Rightarrow> RouteChoice \<Rightarrow> int" where
  "choiceRank mode c = findIndex (\<lambda>k. k \<in> set (kinds c)) (kindOrder mode)"

definition buildChoices :: "TravelMode \<Rightarrow> (RouteVariantKind \<times> RouteResult) list \<Rightarrow> RouteChoice list" where
  "buildChoices mode okRoutes =
     sort_key (choiceRank mode) (map (toChoice mode) (map snd (consolidate okRoutes)))"

definition preferredKind :: "TravelMode \<Rightarrow> RouteVariantKind" where
  "preferredKind mode = (case mode of DRIVE \<Rightarrow> driveFast | WALK \<Rightarrow> walkSafeAccessible)"

definition defaultSelection :: "TravelMode \<Rightarrow> RouteChoice list \<Rightarrow> string option" where
  "defaultSelection mode choices =
     (case find (\<lambda>c. preferredKind mode \<in> set (kinds c)) choices of
        Some c \<Rightarrow> Some (id' c)
      | None \<Rightarrow> (case choices of [] \<Rightarrow> None | c # _ \<Rightarrow> Some (id' c)))"

text \<open>
  \<open>handleRoute\<close> is an async function with two awaits. What runs before the first await
  is \<open>handleRoute_dispatch\<close>: it returns the new state and, when the request goes out, the
  values the closure keeps (travel mode and map bounds). What runs between the two awaits
  is \<open>handleRoute_responses\<close>, applied to the array \<open>Promise.all\<close> resolved with and to the
  state at that moment; it returns the marker request it issues, if any. What runs after
  the second await is \<open>handleRoute_markers\<close>.
\<close>

definition handleRoute_dispatch :: "AppState \<Rightarrow> AppState \<times> (TravelMode \<times> MarkerBounds option) option" where
  "handleRoute_dispatch s0 =
     (let s = clearRouteState s0 in
      case (start s0, endPt s0) of
        (Some a, Some b) \<Rightarrow>
          if \<not> isValidLat (lat a) \<or> \<not> isValidLon (lon a) \<or> \<not> isValidLat (lat b) \<or> \<not> isValidLon (lon b)
          then (s\<lparr>error := Some ''Coordinates are out of range.''\<rparr>, None)
          else (s\<lparr>loading := True\<rparr>, Some (travelMode s0, mapBounds s0))
      | _ \<Rightarrow> (s\<lparr>error := Some ''Please set both a start and end location.''\<rparr>, None))"

definition handleRoute_responses ::
  "TravelMode \<times> MarkerBounds option \<Rightarrow> RouteResponse list \<Rightarrow> AppState \<Rightarrow>
   AppState \<times> (MarkerBounds \<times> RouteChoice list) option" where
  "handleRoute_responses req responses s0 =
     (let s = s0\<lparr>loading := False\<rparr>;
          (okRoutes, errorMessages) = collectResponses (variants (fst req)) responses in
      if okRoutes = [] then
        (s\<lparr>error := Some (case errorMessages of [] \<Rightarrow> ''No route found.'' | m # _ \<Rightarrow> m)\<rparr>, None)
      else
        (let choices = buildChoices (fst req) okRoutes;
             s' = s\<lparr>routeChoices := choices, selectedRouteId := defaultSelection (fst req) choices\<rparr> in
         case snd req of
           None \<Rightarrow> (s', None)
         | Some bounds \<Rightarrow> (s', Some (bounds, choices))))"

definition broadcastMarkers :: "RouteChoice list \<Rightarrow> RouteMarkers \<Rightarrow> (string \<rightharpoonup> RouteMarkers)" where
  "broadcastMarkers choices d = foldl (\<lambda>nextMarkers c. nextMarkers(id' c \<mapsto> d)) Map.empty choices"

definition handleRoute_markers :: "RouteChoice list \<Rightarrow> MarkerResponse \<Rightarrow> AppState \<Rightarrow> AppState" where
  "handleRoute_markers choices response s =
     (case response of
        MarkersOk d \<Rightarrow> s\<lparr>routeMarkers := broadcastMarkers choices d\<rparr>
      | MarkersError m st \<Rightarrow> s)"

text \<open>
  A route request with no other event between its dispatch and the resolution of
  \<open>Promise.all\<close>: \<open>fetch\<close> gives the response of each variant's request, and the array of
  responses is in request order (lemma \<open>promiseAll_request_order\<close> below).
\<close>

definition handleRoute :: "(RouteVariantKind \<Rightarrow> RouteResponse) \<Rightarrow> AppState \<Rightarrow> AppState" where
  "handleRoute fetch s =
     (case handleRoute_dispatch s of
        (s', None) \<Rightarrow> s'
      | (s', Some req) \<Rightarrow> fst (handleRoute_responses req (map fetch (variants (fst req))) s'))"

text \<open>The same request, with the completions of the per-variant promises in any order.\<close>

definition handleRoute_async :: "(nat \<times> RouteResponse) list \<Rightarrow> AppState \<Rightarrow> AppState option" where
  "handleRoute_async completions s =
     (case handleRoute_dispatch s of
        (s', None) \<Rightarrow> Some s'
      | (s', Some req) \<Rightarrow>
          (case promiseAll (length (variants (fst req))) completions of
             None \<Rightarrow> None
           | Some responses \<Rightarrow> Some (fst (handleRoute_responses req responses s'))))"

definition routable :: "AppState \<Rightarrow> bool" where
  "routable s =
     (case (start s, endPt s) of
        (Some a, Some b) \<Rightarrow> isValidLat (lat a) \<and> isValidLon (lon a) \<and> isValidLat (lat b) \<and> isValidLon (lon b)
      | _ \<Rightarrow> False)"

definition isOk :: "RouteResponse \<Rightarrow> bool" where
  "isOk r = (case r of RouteOk d \<Rightarrow> True | _ \<Rightarrow> False)"

text \<open>
  The render \<open>{error && <div className="status error">{error}</div>}\<close>: the error
  is on the screen when the cell holds a string that is not empty.
\<close>

definition errorShown :: "AppState \<Rightarrow> bool" where
  "errorShown s = (case error s of None \<Rightarrow> False | Some m \<Rightarrow> m \<noteq> [])"

section \<open>Point selection: map clicks, coordinate fields, place search\<close>

text \<open>
  \<open>updateStartFromInputs\<close> and \<open>updateEndFromInputs\<close>: the arguments are the values
  \<open>parseNumber\<close> returns on the two input strings (\<open>None\<close> for \<open>null\<close>, that is for a
  string that is not a finite number).
\<close>

definition updateStartFromInputs :: "real option \<Rightarrow> real option \<Rightarrow> AppState \<Rightarrow> AppState" where
  "updateStartFromInputs latValue lonValue s =
     clearRouteState
       (s\<lparr> start :=
             (case (latValue, lonValue) of
                (Some la, Some lo) \<Rightarrow>
                  if isValidLat la \<and> isValidLon lo then Some \<lparr>lat = la, lon = lo\<rparr> else None
              | _ \<Rightarrow> None),
           startPlace := [] \<rparr>)"

definition updateEndFromInputs :: "real option \<Rightarrow> real option \<Rightarrow> AppState \<Rightarrow> AppState" where
  "updateEndFromInputs latValue lonValue s =
     clearRouteState
       (s\<lparr> endPt :=
             (case (latValue, lonValue) of
                (Some la, Some lo) \<Rightarrow>
                  if isValidLat la \<and> isValidLon lo then Some \<lparr>lat = la, lon = lo\<rparr> else None
              | _ \<Rightarrow> None),
           endPlace := [] \<rparr>)"

definition applyGeocodeResult :: "PointKind \<Rightarrow> real \<Rightarrow> real \<Rightarrow> string \<Rightarrow> AppState \<Rightarrow> AppState" where
  "applyGeocodeResult kind la lo lbl s =
     (if kind = StartPoint then s\<lparr> start := Some \<lparr>lat = la, lon = lo\<rparr>, startPlace := lbl \<rparr>
      else s\<lparr> endPt := Some \<lparr>lat = la, lon = lo\<rparr>, endPlace := lbl \<rparr>)"

text \<open>
  \<open>handlePlaceSearch\<close> is async with one await: \<open>handlePlaceSearch_dispatch\<close> runs before
  it and returns the query sent to the geocoder, if any; \<open>handlePlaceSearch_result\<close> runs
  after it, on the geocoder's answer and the state at that moment.
\<close>

definition handlePlaceSearch_dispatch :: "PointKind \<Rightarrow> AppState \<Rightarrow> AppState \<times> string option" where
  "handlePlaceSearch_dispatch kind s =
     (let query = trim (if kind = StartPoint then startPlace s else endPlace s) in
      if query = [] then (s\<lparr>error := Some ''Please enter a place name.''\<rparr>, None)
      else ((clearRouteState s)\<lparr>geocoding := Some kind\<rparr>, Some query))"

definition handlePlaceSearch_result :: "PointKind \<Rightarrow> GeocodeResponse \<Rightarrow> AppState \<Rightarrow> AppState" where
  "handlePlaceSearch_result kind res s0 =
     (let s = s0\<lparr>geocoding := None\<rparr> in
      case res of
        GeocodeOk la lo lbl \<Rightarrow>
          if \<not> isValidLat la \<or> \<not> isValidLon lo
          then s\<lparr>error := Some ''Geocoder returned out-of-range coordinates.''\<rparr>
          else applyGeocodeResult kind la lo lbl s
      | GeocodeFailed message \<Rightarrow> s\<lparr>error := Some message\<rparr>)"

definition handleMapClick :: "real \<Rightarrow> real \<Rightarrow> AppState \<Rightarrow> AppState" where
  "handleMapClick la lo s0 =
     (let s = clearRouteState s0 in
      if start s0 = None then s\<lparr> start := Some \<lparr>lat = la, lon = lo\<rparr>, startPlace := [] \<rparr>
      else if endPt s0 = None then s\<lparr> endPt := Some \<lparr>lat = la, lon = lo\<rparr>, endPlace := [] \<rparr>
      else s\<lparr> start := Some \<lparr>lat = la, lon = lo\<rparr>, endPt := None, startPlace := [], endPlace := [] \<rparr>)"

definition handleClear :: "AppState \<Rightarrow> AppState" where
  "handleClear s =
     s\<lparr> start := None, endPt := None, startPlace := [], endPlace := [], geocoding := None,
        routeChoices := [], selectedRouteId := None, routeMarkers := Map.empty, error := None \<rparr>"

text \<open>The click handlers of the two travel mode buttons.\<close>

definition travelModeClick :: "TravelMode \<Rightarrow> AppState \<Rightarrow> AppState" where
  "travelModeClick mode s = (if travelMode s \<noteq> mode then clearRouteState (s\<lparr>travelMode := mode\<rparr>) else s)"

section \<open>Hazard pick mode (MapView.tsx: MapEventHandler; App.tsx: onHazardPick)\<close>

definition onHazardPick :: "real \<Rightarrow> real \<Rightarrow> AppState \<Rightarrow> AppState" where
  "onHazardPick la lo s = s\<lparr> hazardPickMode := False, hazardLocation := Some \<lparr>lat = la, lon = lo\<rparr> \<rparr>"

text \<open>
  The \<open>click\<close> handler of \<open>MapEventHandler\<close>; \<open>App\<close> always passes \<open>onHazardPick\<close>, so the
  test \<open>hazardPickMode && onHazardPick\<close> is the test of the flag.
\<close>

definition mapClick :: "real \<Rightarrow> real \<Rightarrow> AppState \<Rightarrow> AppState" where
  "mapClick la lo s = (if hazardPickMode s then onHazardPick la lo s else handleMapClick la lo s)"

definition toggleHazardPick :: "AppState \<Rightarrow> AppState" where
  "toggleHazardPick s = s\<lparr>hazardPickMode := \<not> hazardPickMode s\<rparr>"

section \<open>Marker refresh\<close>

definition handleBoundsChange :: "MarkerBounds \<Rightarrow> AppState \<Rightarrow> AppState" where
  "handleBoundsChange bounds s = s\<lparr>mapBounds := Some bounds\<rparr>"

text \<open>
  The effect on \<open>[mapBounds, routeChoices]\<close>. \<open>markerEffect_dispatch\<close> is the guard at its
  head: the request it issues, with the route choices its closure keeps.
  \<open>markerEffect_result\<close> is what runs after the await; \<open>cancelled\<close> is the closure's flag,
  which the cleanup sets: React runs the cleanup before it runs the effect again, that
  is after a render in which \<open>mapBounds\<close> or \<open>routeChoices\<close> was assigned again.
\<close>

definition markerEffect_dispatch :: "AppState \<Rightarrow> (MarkerBounds \<times> RouteChoice list) option" where
  "markerEffect_dispatch s =
     (case mapBounds s of
        None \<Rightarrow> None
      | Some bounds \<Rightarrow> if routeChoices s = [] then None else Some (bounds, routeChoices s))"

definition markerEffect_result :: "bool \<Rightarrow> RouteChoice list \<Rightarrow> MarkerResponse \<Rightarrow> AppState \<Rightarrow> AppState" where
  "markerEffect_result cancelled choices response s =
     (if cancelled then s
      else case response of
        MarkersOk d \<Rightarrow> s\<lparr>routeMarkers := broadcastMarkers choices d\<rparr>
      | MarkersError m st \<Rightarrow> s)"

section \<open>Device location\<close>

text \<open>
  \<open>requestDeviceLocation\<close> where the browser has geolocation: \<open>requestDeviceLocation\<close> is
  what runs at the call, \<open>requestDeviceLocation_success\<close> the success callback; it returns
  the \<open>defaultLocation\<close> it calls \<open>reverseGeocode\<close> with, if it does.
  \<open>reverseGeocode_result\<close> is the \<open>then\<close> callback of that call.
\<close>

definition requestDeviceLocation :: "AppState \<Rightarrow> AppState" where
  "requestDeviceLocation s = s\<lparr>geoStatus := locating, geoError := None\<rparr>"

definition requestDeviceLocation_success ::
  "real \<Rightarrow> real \<Rightarrow> real \<Rightarrow> AppState \<Rightarrow> AppState \<times> LatLon option" where
  "requestDeviceLocation_success la lo accuracy s0 =
     (let s = s0\<lparr>geoStatus := ready, deviceLocation := Some (la, lo, accuracy)\<rparr> in
      if \<not> hasDefaultedStart s0 \<and> start s0 = None then
        (s\<lparr> start := Some \<lparr>lat = la, lon = lo\<rparr>, startPlace := ''Current location'',
            hasDefaultedStart := True \<rparr>,
         Some \<lparr>lat = la, lon = lo\<rparr>)
      else (s, None))"

definition requestDeviceLocation_failure :: "string \<Rightarrow> AppState \<Rightarrow> AppState" where
  "requestDeviceLocation_failure message s =
     s\<lparr>geoStatus := unavailable, geoError := Some message, deviceLocation := None\<rparr>"

definition reverseGeocode_result :: "LatLon \<Rightarrow> ReverseGeocodeResponse \<Rightarrow> AppState \<Rightarrow> AppState" where
  "reverseGeocode_result defaultLocation res s =
     (case res of
        ReverseFailed \<Rightarrow> s
      | ReverseOk lbl \<Rightarrow>
          (case start s of
             None \<Rightarrow> s
           | Some latestStart \<Rightarrow>
               if isSameLocation latestStart defaultLocation then s\<lparr>startPlace := lbl\<rparr> else s))"

section \<open>Events\<close>

text \<open>
  One event for each handler above and for each continuation of an async handler. A
  continuation's event carries the values its closure keeps. \<open>run\<close> applies a sequence of
  events, the earliest first.
\<close>

datatype Event =
    MapClicked real real
  | StartInputsEdited "real option" "real option"
  | EndInputsEdited "real option" "real option"
  | StartPlaceTyped string
  | EndPlaceTyped string
  | PlaceSearchClicked PointKind
  | GeocodeArrived PointKind GeocodeResponse
  | RouteClicked
  | RouteResponsesArrived "TravelMode \<times> MarkerBounds option" "RouteResponse list"
  | RouteMarkersArrived "RouteChoice list" MarkerResponse
  | EffectMarkersArrived bool "RouteChoice list" MarkerResponse
  | RouteSelected string
  | ClearClicked
  | TravelModeClicked TravelMode
  | BoundsChanged MarkerBounds
  | HazardPickToggled
  | LocationRequested
  | PositionArrived real real real
  | PositionFailed string
  | ReverseGeocodeArrived LatLon ReverseGeocodeResponse

fun step :: "Event \<Rightarrow> AppState \<Rightarrow> AppState" where
  "step (MapClicked la lo) s = mapClick la lo s"
| "step (StartInputsEdited a b) s = updateStartFromInputs a b s"
| "step (EndInputsEdited a b) s = updateEndFromInputs a b s"
| "step (StartPlaceTyped t) s = s\<lparr>startPlace := t\<rparr>"
| "step (EndPlaceTyped t) s = s\<lparr>endPlace := t\<rparr>"
| "step (PlaceSearchClicked kind) s = fst (handlePlaceSearch_dispatch kind s)"
| "step (GeocodeArrived kind res) s = handlePlaceSearch_result kind res s"
| "step RouteClicked s = fst (handleRoute_dispatch s)"
| "step (RouteResponsesArrived req responses) s = fst (handleRoute_responses req responses s)"
| "step (RouteMarkersArrived choices response) s = handleRoute_markers choices response s"
| "step (EffectMarkersArrived cancelled choices response) s = markerEffect_result cancelled choices response s"
| "step (RouteSelected routeId) s = s\<lparr>selectedRouteId := Some routeId\<rparr>"
| "step ClearClicked s = handleClear s"
| "step (TravelModeClicked mode) s = travelModeClick mode s"
| "step (BoundsChanged bounds) s = handleBoundsChange bounds s"
| "step HazardPickToggled s = toggleHazardPick s"
| "step LocationRequested s = requestDeviceLocation s"
| "step (PositionArrived la lo accuracy) s = fst (requestDeviceLocation_success la lo accuracy s)"
| "step (PositionFailed message) s = requestDeviceLocation_failure message s"
| "step (ReverseGeocodeArrived defaultLocation res) s = reverseGeocode_result defaultLocation res s"

definition run :: "Event list \<Rightarrow> AppState \<Rightarrow> AppState" where
  "run events s = foldl (\<lambda>st e. step e st) s events"

section \<open>Concrete inputs\<close>

definition bounds0 :: MarkerBounds where
  "bounds0 = \<lparr>minLat = 0, maxLat = 10, minLon = 0, maxLon = 10\<rparr>"

definition s_drive :: AppState where
  "s_drive = initialState\<lparr> start := Some \<lparr>lat = 1, lon = 2\<rparr>, endPt := Some \<lparr>lat = 3, lon = 4\<rparr>,
     travelMode := DRIVE, startPlace := ''Ithaca'', mapBounds := Some bounds0 \<rparr>"

definition s_walk :: AppState where
  "s_walk = initialState\<lparr> start := Some \<lparr>lat = 1, lon = 2\<rparr>, endPt := Some \<lparr>lat = 3, lon = 4\<rparr> \<rparr>"

definition routeA :: RouteResult where
  "routeA = \<lparr> distanceMeters = 100, durationSeconds = 60, pathNodeIds = [1, 2], pathEdgeIds = [7],
     routeGeojson = Some [(0, 0), (1, 1)] \<rparr>"

text \<open>The same line as \<open>routeA\<close>, with another distance, duration and path.\<close>

definition routeA' :: RouteResult where
  "routeA' = \<lparr> distanceMeters = 250, durationSeconds = 90, pathNodeIds = [1, 5, 2], pathEdgeIds = [8, 9],
     routeGeojson = Some [(0, 0), (1, 1)] \<rparr>"

definition routeB :: RouteResult where
  "routeB = \<lparr> distanceMeters = 300, durationSeconds = 120, pathNodeIds = [1, 3, 2], pathEdgeIds = [4, 5],
     routeGeojson = Some [(0, 0), (2, 1), (1, 1)] \<rparr>"

definition markers0 :: RouteMarkers where
  "markers0 = \<lparr> hazardMarkers = [HazardMarker ''h1'' 1 1], riskMarkers = [] \<rparr>"

text \<open>Drive: fastest has no route with message M1, safe has no route with message M2.\<close>

fun fetch_noRoutes :: "RouteVariantKind \<Rightarrow> RouteResponse" where
  "fetch_noRoutes driveFast = RouteNoRoute ''M1''"
| "fetch_noRoutes k = RouteNoRoute ''M2''"

text \<open>Drive: fastest fails with a service error, safe has no route.\<close>

fun fetch_error_noRoute :: "RouteVariantKind \<Rightarrow> RouteResponse" where
  "fetch_error_noRoute driveFast = RouteError ''timeout'' (Some 500)"
| "fetch_error_noRoute k = RouteNoRoute ''M2''"

text \<open>Walk: the three variants have no route, with messages A, B and C.\<close>

fun fetch_walk_noRoutes :: "RouteVariantKind \<Rightarrow> RouteResponse" where
  "fetch_walk_noRoutes walkSafe = RouteNoRoute ''A''"
| "fetch_walk_noRoutes walkAccessible = RouteNoRoute ''B''"
| "fetch_walk_noRoutes k = RouteNoRoute ''C''"

text \<open>Drive: fastest fails with a service error, safe is ok.\<close>

fun fetch_error_ok :: "RouteVariantKind \<Rightarrow> RouteResponse" where
  "fetch_error_ok driveFast = RouteError ''timeout'' (Some 500)"
| "fetch_error_ok k = RouteOk routeA"

text \<open>Walk: safe and accessible are ok with the same line, safe+accessible has no route.\<close>

fun fetch_walk_merge :: "RouteVariantKind \<Rightarrow> RouteResponse" where
  "fetch_walk_merge walkSafe = RouteOk routeA"
| "fetch_walk_merge walkAccessible = RouteOk routeA'"
| "fetch_walk_merge k = RouteNoRoute ''blocked''"

text \<open>Drive: both ok, with the same line.\<close>

fun fetch_drive_merge :: "RouteVariantKind \<Rightarrow> RouteResponse" where
  "fetch_drive_merge driveFast = RouteOk routeA"
| "fetch_drive_merge k = RouteOk routeA'"

text \<open>Drive: both ok, with different lines.\<close>

fun fetch_drive_two :: "RouteVariantKind \<Rightarrow> RouteResponse" where
  "fetch_drive_two driveFast = RouteOk routeB"
| "fetch_drive_two k = RouteOk routeA"

section \<open>Vocabulary of the statements\<close>

text \<open>
  For an assignment \<open>fetch\<close> of responses to variant kinds: the \<open>ok\<close> routes and the
  failure messages in request order, the members of the group of a coordinate
  sequence, and the test "this kind's response is \<open>ok\<close> with this coordinate sequence".
\<close>

definition okRoutesOf ::
  "(RouteVariantKind \<Rightarrow> RouteResponse) \<Rightarrow> RouteVariantKind list \<Rightarrow> (RouteVariantKind \<times> RouteResult) list" where
  "okRoutesOf fetch vs = concat (map (\<lambda>k. case fetch k of RouteOk d \<Rightarrow> [(k, d)] | _ \<Rightarrow> []) vs)"

definition errorMessagesOf :: "(RouteVariantKind \<Rightarrow> RouteResponse) \<Rightarrow> RouteVariantKind list \<Rightarrow> string list" where
  "errorMessagesOf fetch vs =
     concat (map (\<lambda>k. case fetch k of RouteOk d \<Rightarrow> [] | r \<Rightarrow> [failureMessage k r]) vs)"

definition groupOf ::
  "(real \<times> real) list \<Rightarrow> (RouteVariantKind \<times> RouteResult) list \<Rightarrow> (RouteVariantKind \<times> RouteResult) list" where
  "groupOf key oks = filter (\<lambda>kr. coordsOf (snd kr) = key) oks"

definition sameGeometry :: "(RouteVariantKind \<Rightarrow> RouteResponse) \<Rightarrow> (real \<times> real) list \<Rightarrow> RouteVariantKind \<Rightarrow> bool" where
  "sameGeometry fetch key k = (case fetch k of RouteOk d \<Rightarrow> coordsOf d = key | _ \<Rightarrow> False)"


section \<open>Lemmas on the aggregation of responses\<close>

lemma collect_foldl:
  "foldl collectStep (oks, errs) (map (\<lambda>k. (k, fetch k)) vs) =
     (oks @ okRoutesOf fetch vs, errs @ errorMessagesOf fetch vs)"
proof (induction vs arbitrary: oks errs)
  case Nil
  then show ?case by (simp add: okRoutesOf_def errorMessagesOf_def)
next
  case (Cons k vs)
  show ?case
    by (cases "fetch k") (simp_all add: Cons.IH, simp_all add: okRoutesOf_def errorMessagesOf_def)
qed

lemma collectResponses_fetch:
  "collectResponses vs (map fetch vs) = (okRoutesOf fetch vs, errorMessagesOf fetch vs)"
proof -
  have "zip vs (map fetch vs) = map (\<lambda>k. (k, fetch k)) vs"
    by (induction vs) simp_all
  then show ?thesis
    using collect_foldl [of "[]" "[]" fetch vs] by (simp add: collectResponses_def)
qed

lemma okRoutesOf_mem: "(k, d) \<in> set (okRoutesOf fetch vs) \<longleftrightarrow> k \<in> set vs \<and> fetch k = RouteOk d"
  by (auto simp: okRoutesOf_def split: RouteResponse.splits)

lemma okRoutesOf_empty: "okRoutesOf fetch vs = [] \<longleftrightarrow> (\<forall>k \<in> set vs. \<not> isOk (fetch k))"
  by (induction vs) (auto simp: okRoutesOf_def isOk_def split: RouteResponse.splits)

lemma errorMessagesOf_all_fail:
  "\<forall>k \<in> set vs. \<not> isOk (fetch k) \<Longrightarrow> errorMessagesOf fetch vs = map (\<lambda>k. failureMessage k (fetch k)) vs"
  by (induction vs) (auto simp: errorMessagesOf_def isOk_def split: RouteResponse.splits)

lemma failureMessage_nonempty: "\<not> isOk r \<Longrightarrow> failureMessage k r \<noteq> []"
  by (cases r) (simp_all add: isOk_def)

lemma consolidate_snoc: "consolidate (oks @ [kr]) = consolidateStep (consolidate oks) kr"
  by (simp add: consolidate_def)

lemma consolidate_distinct: "distinct (map fst (consolidate oks))"
proof (induction oks rule: rev_induct)
  case Nil
  then show ?case by (simp add: consolidate_def)
next
  case (snoc kr oks)
  then show ?case
    by (simp add: consolidate_snoc consolidateStep_def Let_def distinct_update split: option.splits)
qed

lemma consolidate_map_of:
  "map_of (consolidate oks) key =
     (case groupOf key oks of [] \<Rightarrow> None | kr # rest \<Rightarrow> Some (map fst (kr # rest), snd kr))"
proof (induction oks rule: rev_induct)
  case Nil
  then show ?case by (simp add: consolidate_def groupOf_def)
next
  case (snoc kr oks)
  then show ?case
    by (cases "coordsOf (snd kr) = key")
      (auto simp: consolidate_snoc consolidateStep_def Let_def update_conv' groupOf_def
        split: option.splits list.splits)
qed

lemma groupOf_fst:
  "map fst (groupOf key (okRoutesOf fetch vs)) = filter (sameGeometry fetch key) vs"
  by (induction vs) (auto simp: groupOf_def okRoutesOf_def sameGeometry_def split: RouteResponse.splits)

lemma groupOf_mem:
  "x \<in> set (groupOf key (okRoutesOf fetch vs)) \<Longrightarrow> fetch (fst x) = RouteOk (snd x) \<and> coordsOf (snd x) = key"
  by (cases x) (auto simp: groupOf_def okRoutesOf_mem)

lemma consolidate_entry:
  assumes "(key, (ks, r)) \<in> set (consolidate (okRoutesOf fetch vs))"
  shows "ks = filter (sameGeometry fetch key) vs \<and> ks \<noteq> [] \<and> fetch (hd ks) = RouteOk r \<and> coordsOf r = key"
proof -
  let ?g = "groupOf key (okRoutesOf fetch vs)"
  from assms have m: "map_of (consolidate (okRoutesOf fetch vs)) key = Some (ks, r)"
    using consolidate_distinct by simp
  then obtain kr rest where g: "?g = kr # rest" and ks: "ks = map fst (kr # rest)" and r: "r = snd kr"
    by (auto simp: consolidate_map_of split: list.splits)
  have "kr \<in> set ?g" using g by simp
  then have kr: "fetch (fst kr) = RouteOk (snd kr) \<and> coordsOf (snd kr) = key"
    by (rule groupOf_mem)
  have "ks = map fst ?g" using g ks by simp
  then have "ks = filter (sameGeometry fetch key) vs" by (simp add: groupOf_fst)
  moreover have "ks \<noteq> []" using ks by simp
  moreover have "hd ks = fst kr" using ks by simp
  ultimately show ?thesis using kr r by simp
qed

lemma consolidate_has_entry:
  assumes "k \<in> set vs" and "fetch k = RouteOk d"
  shows "\<exists>ks r. (coordsOf d, (ks, r)) \<in> set (consolidate (okRoutesOf fetch vs)) \<and> k \<in> set ks"
proof -
  let ?g = "groupOf (coordsOf d) (okRoutesOf fetch vs)"
  have kin: "k \<in> set (map fst ?g)"
    using assms by (simp add: groupOf_fst sameGeometry_def)
  then obtain kr rest where g: "?g = kr # rest" by (cases ?g) auto
  then have "map_of (consolidate (okRoutesOf fetch vs)) (coordsOf d) = Some (map fst ?g, snd kr)"
    by (simp add: consolidate_map_of)
  then have "(coordsOf d, (map fst ?g, snd kr)) \<in> set (consolidate (okRoutesOf fetch vs))"
    by (rule map_of_SomeD)
  then show ?thesis using kin by blast
qed

lemma variants_kindOrder: "set (variants mode) = set (kindOrder mode)"
  by (cases mode) auto

lemma filter_mem_filter:
  "set ko = set vs \<Longrightarrow> filter (\<lambda>k. k \<in> set (filter P vs)) ko = filter P ko"
  by (rule filter_cong) auto

lemma toChoice_entry:
  assumes "(key, (ks, r)) \<in> set (consolidate (okRoutesOf fetch (variants mode)))"
  shows "kinds (toChoice mode (ks, r)) = filter (sameGeometry fetch key) (kindOrder mode)"
    and "result (toChoice mode (ks, r)) = r"
    and "coordsOf r = key"
    and "fetch (hd (filter (sameGeometry fetch key) (variants mode))) = RouteOk r"
    and "filter (sameGeometry fetch key) (kindOrder mode) \<noteq> []"
proof -
  from consolidate_entry [OF assms]
  have ks: "ks = filter (sameGeometry fetch key) (variants mode)" and ne: "ks \<noteq> []"
    and hd: "fetch (hd ks) = RouteOk r" and co: "coordsOf r = key" by blast+
  have "filter (\<lambda>k. k \<in> set ks) (kindOrder mode) = filter (sameGeometry fetch key) (kindOrder mode)"
    unfolding ks by (rule filter_mem_filter) (simp add: variants_kindOrder)
  then show k: "kinds (toChoice mode (ks, r)) = filter (sameGeometry fetch key) (kindOrder mode)"
    by (simp add: toChoice_def Let_def)
  show "result (toChoice mode (ks, r)) = r" by (simp add: toChoice_def Let_def)
  show "coordsOf r = key" by (rule co)
  show "fetch (hd (filter (sameGeometry fetch key) (variants mode))) = RouteOk r"
    using hd ks by simp
  have "set (filter (sameGeometry fetch key) (kindOrder mode)) = set ks"
    by (auto simp: ks variants_kindOrder)
  then show "filter (sameGeometry fetch key) (kindOrder mode) \<noteq> []"
    using ne by (metis set_empty)
qed

lemma handleRoute_dispatch_routable:
  "routable s \<Longrightarrow>
   handleRoute_dispatch s = ((clearRouteState s)\<lparr>loading := True\<rparr>, Some (travelMode s, mapBounds s))"
  by (auto simp: routable_def handleRoute_dispatch_def Let_def split: option.splits)

lemma handleRoute_routable:
  "routable s \<Longrightarrow>
   handleRoute fetch s =
     fst (handleRoute_responses (travelMode s, mapBounds s) (map fetch (variants (travelMode s)))
            ((clearRouteState s)\<lparr>loading := True\<rparr>))"
  by (simp add: handleRoute_def handleRoute_dispatch_routable)

lemma handleRoute_responses_fail:
  assumes "okRoutesOf fetch (variants (fst req)) = []"
  shows "fst (handleRoute_responses req (map fetch (variants (fst req))) s) =
     s\<lparr>loading := False,
        error := Some (case errorMessagesOf fetch (variants (fst req)) of [] \<Rightarrow> ''No route found.'' | m # _ \<Rightarrow> m)\<rparr>"
  using assms by (simp add: handleRoute_responses_def collectResponses_fetch Let_def)

lemma handleRoute_responses_ok:
  assumes "okRoutesOf fetch (variants (fst req)) \<noteq> []"
  shows "fst (handleRoute_responses req (map fetch (variants (fst req))) s) =
     s\<lparr>loading := False,
        routeChoices := buildChoices (fst req) (okRoutesOf fetch (variants (fst req))),
        selectedRouteId := defaultSelection (fst req) (buildChoices (fst req) (okRoutesOf fetch (variants (fst req))))\<rparr>"
  using assms by (simp add: handleRoute_responses_def collectResponses_fetch Let_def split: option.splits)

lemma handleRoute_fail:
  assumes "routable s" and "\<forall>k \<in> set (variants (travelMode s)). \<not> isOk (fetch k)"
  shows "handleRoute fetch s =
     s\<lparr>routeChoices := [], selectedRouteId := None, routeMarkers := Map.empty, loading := False,
        error := Some (failureMessage (hd (variants (travelMode s))) (fetch (hd (variants (travelMode s)))))\<rparr>"
proof -
  have e: "okRoutesOf fetch (variants (travelMode s)) = []"
    using assms(2) by (simp add: okRoutesOf_empty)
  have "variants (travelMode s) \<noteq> []" by (cases "travelMode s") simp_all
  then have m: "(case errorMessagesOf fetch (variants (travelMode s)) of [] \<Rightarrow> ''No route found.'' | m # _ \<Rightarrow> m)
      = failureMessage (hd (variants (travelMode s))) (fetch (hd (variants (travelMode s))))"
    using errorMessagesOf_all_fail [OF assms(2)] by (cases "variants (travelMode s)") simp_all
  show ?thesis
    using handleRoute_responses_fail [of fetch "(travelMode s, mapBounds s)"] e m
    by (simp add: handleRoute_routable [OF assms(1)] clearRouteState_def)
qed

lemma handleRoute_ok:
  assumes "routable s" and "\<exists>k \<in> set (variants (travelMode s)). isOk (fetch k)"
  shows "handleRoute fetch s =
     s\<lparr>routeChoices := buildChoices (travelMode s) (okRoutesOf fetch (variants (travelMode s))),
        selectedRouteId := defaultSelection (travelMode s)
           (buildChoices (travelMode s) (okRoutesOf fetch (variants (travelMode s)))),
        routeMarkers := Map.empty, loading := False, error := None\<rparr>"
proof -
  have e: "okRoutesOf fetch (variants (travelMode s)) \<noteq> []"
    using assms(2) by (simp add: okRoutesOf_empty)
  show ?thesis
    using handleRoute_responses_ok [of fetch "(travelMode s, mapBounds s)"] e
    by (simp add: handleRoute_routable [OF assms(1)] clearRouteState_def)
qed

section \<open>Lemmas on the route choices\<close>





lemma buildChoices_set:
  "set (buildChoices mode oks) = (\<lambda>e. toChoice mode (snd e)) ` set (consolidate oks)"
  by (auto simp: buildChoices_def)


lemma distinct_map_sort_key: "distinct (map g (sort_key f xs)) = distinct (map g xs)"
  by (simp add: distinct_map)

lemma buildChoices_distinct:
  "distinct (map (\<lambda>c. coordsOf (result c)) (buildChoices mode (okRoutesOf fetch (variants mode))))"
proof -
  let ?m = "consolidate (okRoutesOf fetch (variants mode))"
  have h: "map (\<lambda>e. coordsOf (result (toChoice mode (snd e)))) ?m = map fst ?m"
  proof (rule map_cong [OF refl])
    fix e assume "e \<in> set ?m"
    then have "(fst e, (fst (snd e), snd (snd e))) \<in> set ?m" by simp
    from toChoice_entry(2,3) [OF this] show "coordsOf (result (toChoice mode (snd e))) = fst e"
      by simp
  qed
  have b: "map (\<lambda>c. coordsOf (result c)) (map (toChoice mode) (map snd ?m)) =
      map (\<lambda>e. coordsOf (result (toChoice mode (snd e)))) ?m"
    by (simp add: comp_def)
  have "distinct (map (\<lambda>c. coordsOf (result c)) (map (toChoice mode) (map snd ?m)))"
    unfolding b h by (rule consolidate_distinct)
  then show ?thesis
    unfolding buildChoices_def by (simp only: distinct_map_sort_key)
qed

lemma buildChoices_nonempty:
  "okRoutesOf fetch (variants mode) \<noteq> [] \<Longrightarrow> buildChoices mode (okRoutesOf fetch (variants mode)) \<noteq> []"
proof -
  assume "okRoutesOf fetch (variants mode) \<noteq> []"
  then obtain k d where "(k, d) \<in> set (okRoutesOf fetch (variants mode))"
    by (cases "okRoutesOf fetch (variants mode)") auto
  then have "k \<in> set (variants mode)" "fetch k = RouteOk d" by (simp_all add: okRoutesOf_mem)
  from consolidate_has_entry [where fetch = fetch and d = d, OF this] obtain e
    where "e \<in> set (consolidate (okRoutesOf fetch (variants mode)))" by blast
  then have "toChoice mode (snd e) \<in> set (buildChoices mode (okRoutesOf fetch (variants mode)))"
    unfolding buildChoices_set by (rule imageI)
  then show ?thesis by auto
qed

lemma kindOrder_distinct: "distinct (kindOrder mode)"
  by (cases mode) simp_all

lemma variants_distinct: "distinct (variants mode)"
  by (cases mode) simp_all

lemma choice_shape:
  assumes "c \<in> set (buildChoices mode (okRoutesOf fetch (variants mode)))"
  shows "kinds c = filter (sameGeometry fetch (coordsOf (result c))) (kindOrder mode)"
    and "kinds c \<noteq> []"
    and "fetch (hd (filter (sameGeometry fetch (coordsOf (result c))) (variants mode))) = RouteOk (result c)"
    and "id' c = join ''-'' (map kindName (kinds c))"
    and "label c = join labelSeparator (map routeKindLabels (kinds c))"
    and "color c = routeColors (hd (kinds c))"
proof -
  from assms obtain key ks r
    where e: "(key, (ks, r)) \<in> set (consolidate (okRoutesOf fetch (variants mode)))"
      and c: "c = toChoice mode (ks, r)"
    by (auto simp: buildChoices_set)
  note t = toChoice_entry [OF e]
  have key: "coordsOf (result c) = key" using t(2,3) c by simp
  show k: "kinds c = filter (sameGeometry fetch (coordsOf (result c))) (kindOrder mode)"
    using t(1) c key by simp
  show ne: "kinds c \<noteq> []" using t(5) k key by simp
  show "fetch (hd (filter (sameGeometry fetch (coordsOf (result c))) (variants mode))) = RouteOk (result c)"
    using t(4) t(2) c key by simp
  show "id' c = join ''-'' (map kindName (kinds c))" by (simp add: c toChoice_def Let_def)
  show "label c = join labelSeparator (map routeKindLabels (kinds c))"
    by (simp add: c toChoice_def Let_def)
  show "color c = routeColors (hd (kinds c))"
    using ne by (cases "kinds c") (auto simp: c toChoice_def Let_def)
qed

lemma choice_kind_iff:
  assumes "c \<in> set (buildChoices mode (okRoutesOf fetch (variants mode)))"
  shows "k \<in> set (kinds c) \<longleftrightarrow> k \<in> set (variants mode) \<and> sameGeometry fetch (coordsOf (result c)) k"
  using choice_shape(1) [OF assms] by (auto simp: variants_kindOrder)

lemma choice_exists:
  assumes "k \<in> set (variants mode)" and "fetch k = RouteOk d"
  shows "\<exists>c \<in> set (buildChoices mode (okRoutesOf fetch (variants mode))).
           k \<in> set (kinds c) \<and> coordsOf (result c) = coordsOf d"
proof -
  from consolidate_has_entry [where fetch = fetch and d = d, OF assms] obtain ks r
    where e: "(coordsOf d, (ks, r)) \<in> set (consolidate (okRoutesOf fetch (variants mode)))" by blast
  let ?c = "toChoice mode (ks, r)"
  have cin: "?c \<in> set (buildChoices mode (okRoutesOf fetch (variants mode)))"
    using e by (force simp: buildChoices_set)
  have co: "coordsOf (result ?c) = coordsOf d" using toChoice_entry(2,3) [OF e] by simp
  have "k \<in> set (kinds ?c)"
    using assms co by (simp add: choice_kind_iff [OF cin] sameGeometry_def)
  then show ?thesis using cin co by blast
qed


section \<open>Lemmas on handleRoute\<close>

lemmas concrete_defs =
  s_drive_def s_walk_def initialState_def bounds0_def routeA_def routeA'_def routeB_def markers0_def

lemmas handler_defs =
  Let_def handleRoute_def handleRoute_dispatch_def handleRoute_responses_def clearRouteState_def
  collectResponses_def isValidLat_def isValidLon_def routable_def isOk_def

lemma handleRoute_choices:
  assumes "routable s"
  shows "routeChoices (handleRoute fetch s) =
           buildChoices (travelMode s) (okRoutesOf fetch (variants (travelMode s)))"
proof (cases "\<exists>k \<in> set (variants (travelMode s)). isOk (fetch k)")
  case True
  from handleRoute_ok [OF assms True] show ?thesis by simp
next
  case False
  then have a: "\<forall>k \<in> set (variants (travelMode s)). \<not> isOk (fetch k)" by blast
  then have "okRoutesOf fetch (variants (travelMode s)) = []" by (simp add: okRoutesOf_empty)
  then show ?thesis
    using handleRoute_fail [OF assms a] by (simp add: buildChoices_def consolidate_def)
qed

lemma find_hd_filter: "filter P xs \<noteq> [] \<Longrightarrow> find P xs = Some (hd (filter P xs))"
  by (induction xs) auto

lemma routable_s_drive: "routable s_drive"
  by (simp add: routable_def concrete_defs isValidLat_def isValidLon_def)

lemma routable_s_walk: "routable s_walk"
  by (simp add: routable_def concrete_defs isValidLat_def isValidLon_def)

section \<open>Lemmas on Promise.all\<close>

lemma promiseAll_foldl_length:
  "length (foldl promiseAll_store vals cs) = length vals"
  by (induction cs arbitrary: vals) (simp_all add: promiseAll_store_def)

lemma promiseAll_foldl_nth:
  assumes "distinct (map fst cs)" and "i < length vals"
  shows "foldl promiseAll_store vals cs ! i =
           (case map_of cs i of Some v \<Rightarrow> Some v | None \<Rightarrow> vals ! i)"
  using assms
proof (induction cs arbitrary: vals)
  case Nil
  then show ?case by simp
next
  case (Cons c cs)
  obtain j v where c: "c = (j, v)" by (cases c)
  have d: "distinct (map fst cs)" and jn: "j \<notin> fst ` set cs" using Cons.prems(1) c by auto
  have len: "i < length (promiseAll_store vals c)" using Cons.prems(2) by (simp add: promiseAll_store_def)
  have "foldl promiseAll_store vals (c # cs) ! i =
          (case map_of cs i of Some v \<Rightarrow> Some v | None \<Rightarrow> promiseAll_store vals c ! i)"
    using Cons.IH [OF d len] by simp
  also have "\<dots> = (case map_of (c # cs) i of Some v \<Rightarrow> Some v | None \<Rightarrow> vals ! i)"
  proof (cases "i = j")
    case True
    then have "map_of cs i = None" using jn by (simp add: map_of_eq_None_iff)
    then show ?thesis using True c Cons.prems(2) by (simp add: promiseAll_store_def)
  next
    case False
    then show ?thesis using c by (simp add: promiseAll_store_def split: option.splits)
  qed
  finally show ?case .
qed

lemma promiseAll_request_order:
  assumes "mset completions = mset (zip [0..<length rs] rs)"
  shows "promiseAll (length rs) completions = Some rs"
proof -
  let ?z = "zip [0..<length rs] rs"
  have "mset (map fst completions) = mset (map fst ?z)" using assms by (metis mset_map)
  moreover have "map fst ?z = [0..<length rs]" by simp
  ultimately have d: "distinct (map fst completions)"
    by (metis distinct_upt mset_eq_imp_distinct_iff)
  have s: "set completions = set ?z" using assms by (rule mset_eq_setD)
  let ?r = "foldl promiseAll_store (replicate (length rs) None) completions"
  have "?r = map Some rs"
  proof (rule nth_equalityI)
    show "length ?r = length (map Some rs)" by (simp add: promiseAll_foldl_length)
  next
    fix i assume "i < length ?r"
    then have i: "i < length rs" by (simp add: promiseAll_foldl_length)
    then have "?z ! i = (i, rs ! i)" and "i < length ?z" by simp_all
    then have "(i, rs ! i) \<in> set ?z" by (metis nth_mem)
    then have "(i, rs ! i) \<in> set completions" using s by simp
    then have "map_of completions i = Some (rs ! i)" using d by simp
    then show "?r ! i = map Some rs ! i"
      using promiseAll_foldl_nth [OF d, of i "replicate (length rs) None"] i by simp
  qed
  moreover have "those (map Some rs) = Some rs" by (induction rs) simp_all
  ultimately show ?thesis by (simp add: promiseAll_def)
qed

section \<open>Lemmas on the point selection handlers\<close>

lemma clearRouteState_cleared:
  "routeChoices (clearRouteState s) = [] \<and> selectedRouteId (clearRouteState s) = None
   \<and> routeMarkers (clearRouteState s) = Map.empty \<and> error (clearRouteState s) = None"
  by (simp add: clearRouteState_def)

lemma handleMapClick_cleared:
  "routeChoices (handleMapClick la lo s) = [] \<and> selectedRouteId (handleMapClick la lo s) = None
   \<and> routeMarkers (handleMapClick la lo s) = Map.empty \<and> error (handleMapClick la lo s) = None"
  by (simp add: handleMapClick_def clearRouteState_def Let_def)

lemma updateStartFromInputs_cleared:
  "routeChoices (updateStartFromInputs a b s) = [] \<and> selectedRouteId (updateStartFromInputs a b s) = None
   \<and> routeMarkers (updateStartFromInputs a b s) = Map.empty \<and> error (updateStartFromInputs a b s) = None"
  by (simp add: updateStartFromInputs_def clearRouteState_def)

lemma updateEndFromInputs_cleared:
  "routeChoices (updateEndFromInputs a b s) = [] \<and> selectedRouteId (updateEndFromInputs a b s) = None
   \<and> routeMarkers (updateEndFromInputs a b s) = Map.empty \<and> error (updateEndFromInputs a b s) = None"
  by (simp add: updateEndFromInputs_def clearRouteState_def)

lemma handlePlaceSearch_result_keeps_routes:
  "routeChoices (handlePlaceSearch_result kind res s) = routeChoices s
   \<and> selectedRouteId (handlePlaceSearch_result kind res s) = selectedRouteId s
   \<and> routeMarkers (handlePlaceSearch_result kind res s) = routeMarkers s"
  by (simp add: handlePlaceSearch_result_def applyGeocodeResult_def Let_def split: GeocodeResponse.splits)

lemma markerEffect_cancelled: "markerEffect_result True choices response s = s"
  by (simp add: markerEffect_result_def)

lemma markerEffect_guard:
  "mapBounds s = None \<or> routeChoices s = [] \<Longrightarrow> markerEffect_dispatch s = None"
  by (auto simp: markerEffect_dispatch_def split: option.splits)

lemma broadcastMarkers_foldl:
  "foldl (\<lambda>nextMarkers c. nextMarkers(id' c \<mapsto> d)) m choices i =
     (if i \<in> id' ` set choices then Some d else m i)"
  by (induction choices arbitrary: m) auto

lemma broadcastMarkers_apply:
  "broadcastMarkers choices d i = (if i \<in> id' ` set choices then Some d else None)"
  by (simp add: broadcastMarkers_def broadcastMarkers_foldl)

lemmas event_defs =
  run_def mapClick_def handleMapClick_def onHazardPick_def handlePlaceSearch_dispatch_def
  handlePlaceSearch_result_def applyGeocodeResult_def handleClear_def handleRoute_markers_def
  markerEffect_result_def broadcastMarkers_def requestDeviceLocation_success_def
  reverseGeocode_result_def trim_def isSpace_def isSameLocation_def

lemmas choice_defs =
  buildChoices_def consolidate_def consolidateStep_def coordsOf_def toChoice_def choiceRank_def
  defaultSelection_def preferredKind_def labelSeparator_def

section \<open>Lemmas on the device location default\<close>

lemma step_keeps_latch: "hasDefaultedStart s \<Longrightarrow> hasDefaultedStart (step e s)"
  by (cases e)
    (auto simp: mapClick_def handleMapClick_def onHazardPick_def clearRouteState_def
      updateStartFromInputs_def updateEndFromInputs_def handlePlaceSearch_dispatch_def
      handlePlaceSearch_result_def applyGeocodeResult_def handleRoute_dispatch_def
      handleRoute_responses_def handleRoute_markers_def markerEffect_result_def handleClear_def
      travelModeClick_def handleBoundsChange_def toggleHazardPick_def requestDeviceLocation_def
      requestDeviceLocation_success_def requestDeviceLocation_failure_def reverseGeocode_result_def
      Let_def
      split: option.splits GeocodeResponse.splits MarkerResponse.splits ReverseGeocodeResponse.splits
        prod.splits)

lemma run_keeps_latch: "hasDefaultedStart s \<Longrightarrow> hasDefaultedStart (run events s)"
  unfolding run_def by (induction events arbitrary: s) (simp_all add: step_keeps_latch)

section \<open>The claims\<close>

text \<open>
  C1, as stated, fails. In the drive request where fastest has no route with message M1
  and safe has no route with message M2, the surfaced message is not M1 but the
  formatted message "No Fastest route: M1". A \<open>noRoute\<close> message has no priority over an
  \<open>error\<close> message: with fastest failing by a service error and safe having no route, the
  error's message is surfaced. The order is the request order, not the ranking order:
  in a walk request where all three variants have no route, the message of \<open>walkSafe\<close>
  is surfaced, while the first kind of the ranking order is \<open>walkSafeAccessible\<close>.
\<close>

theorem all_fail_message_counterexample:
  "error (handleRoute fetch_noRoutes s_drive) \<noteq> Some ''M1''
   \<and> error (handleRoute fetch_noRoutes s_drive) = Some ''No Fastest route: M1''
   \<and> error (handleRoute fetch_error_noRoute s_drive) = Some ''Fastest route error: timeout''
   \<and> error (handleRoute fetch_walk_noRoutes s_walk) = Some ''No Safe route: A''
   \<and> hd (kindOrder WALK) = walkSafeAccessible
   \<and> fetch_walk_noRoutes walkSafeAccessible = RouteNoRoute ''C''"
  by (simp add: handler_defs concrete_defs)

text \<open>
  C1, amended. For a route request that passes validation and in which every variant
  fails, the surfaced error message is the formatted failure message of the first
  variant in request order, whatever its failure kind; there is no route choice and no
  selection.
\<close>

theorem all_fail_first_message_in_request_order:
  assumes "routable s" and "\<forall>k \<in> set (variants (travelMode s)). \<not> isOk (fetch k)"
  shows "error (handleRoute fetch s) =
           Some (failureMessage (hd (variants (travelMode s))) (fetch (hd (variants (travelMode s)))))
         \<and> routeChoices (handleRoute fetch s) = []
         \<and> selectedRouteId (handleRoute fetch s) = None"
  by (simp add: handleRoute_fail [OF assms])

theorem all_fail_first_message_in_request_order_witness:
  "routable s_drive \<and> \<not> isOk (fetch_noRoutes driveFast) \<and> \<not> isOk (fetch_noRoutes driveSafe)
   \<and> variants (travelMode s_drive) = [driveFast, driveSafe]
   \<and> error (handleRoute fetch_noRoutes s_drive) = Some ''No Fastest route: M1''
   \<and> routeChoices (handleRoute fetch_noRoutes s_drive) = []"
proof -
  have f: "\<forall>k \<in> set (variants (travelMode s_drive)). \<not> isOk (fetch_noRoutes k)"
    by (simp add: concrete_defs isOk_def)
  have m: "failureMessage (hd (variants (travelMode s_drive))) (fetch_noRoutes (hd (variants (travelMode s_drive))))
     = ''No Fastest route: M1''" by (simp add: concrete_defs)
  have v: "variants (travelMode s_drive) = [driveFast, driveSafe]" by (simp add: concrete_defs)
  show ?thesis
    using all_fail_first_message_in_request_order [OF routable_s_drive f] routable_s_drive m v
    by (simp add: isOk_def)
qed

text \<open>
  C2. For a route request that passes validation, an error is on the screen if and only
  if every variant's response is a failure: then the error cell holds a message that is
  not empty. If at least one variant is \<open>ok\<close>, the error cell is empty, the route
  choices are the ones built from the \<open>ok\<close> responses, and every kind in a route choice
  is a kind whose response is \<open>ok\<close>.
\<close>

theorem error_iff_every_variant_fails:
  assumes "routable s"
  shows "(errorShown (handleRoute fetch s) = (\<forall>k \<in> set (variants (travelMode s)). \<not> isOk (fetch k)))
       \<and> ((error (handleRoute fetch s) \<noteq> None) = (\<forall>k \<in> set (variants (travelMode s)). \<not> isOk (fetch k)))
       \<and> ((\<forall>k \<in> set (variants (travelMode s)). \<not> isOk (fetch k)) \<longrightarrow>
            (\<exists>m. error (handleRoute fetch s) = Some m \<and> m \<noteq> []))
       \<and> ((\<exists>k \<in> set (variants (travelMode s)). isOk (fetch k)) \<longrightarrow>
            error (handleRoute fetch s) = None
          \<and> routeChoices (handleRoute fetch s) =
               buildChoices (travelMode s) (okRoutesOf fetch (variants (travelMode s)))
          \<and> routeChoices (handleRoute fetch s) \<noteq> []
          \<and> (\<forall>c \<in> set (routeChoices (handleRoute fetch s)). \<forall>k \<in> set (kinds c). isOk (fetch k)))"
proof (cases "\<forall>k \<in> set (variants (travelMode s)). \<not> isOk (fetch k)")
  case True
  let ?k = "hd (variants (travelMode s))"
  have "variants (travelMode s) \<noteq> []" by (cases "travelMode s") simp_all
  then have "?k \<in> set (variants (travelMode s))" by (rule hd_in_set)
  then have "\<not> isOk (fetch ?k)" using True by blast
  then have ne: "failureMessage ?k (fetch ?k) \<noteq> []" by (rule failureMessage_nonempty)
  have e: "error (handleRoute fetch s) = Some (failureMessage ?k (fetch ?k))"
    by (simp add: handleRoute_fail [OF assms True])
  show ?thesis using True e ne by (simp add: errorShown_def)
next
  case False
  then have ok: "\<exists>k \<in> set (variants (travelMode s)). isOk (fetch k)" by blast
  let ?cs = "buildChoices (travelMode s) (okRoutesOf fetch (variants (travelMode s)))"
  have ne: "?cs \<noteq> []"
    using ok by (intro buildChoices_nonempty) (simp add: okRoutesOf_empty)
  have "\<forall>c \<in> set ?cs. \<forall>k \<in> set (kinds c). isOk (fetch k)"
    by (auto simp: choice_kind_iff sameGeometry_def isOk_def split: RouteResponse.splits)
  then show ?thesis
    using handleRoute_ok [OF assms ok] False ne by (simp add: errorShown_def)
qed

theorem error_iff_every_variant_fails_witness:
  "routable s_drive
   \<and> (\<exists>k \<in> set (variants (travelMode s_drive)). isOk (fetch_error_ok k))
   \<and> \<not> isOk (fetch_error_ok driveFast)
   \<and> error (handleRoute fetch_error_ok s_drive) = None
   \<and> \<not> errorShown (handleRoute fetch_error_ok s_drive)
   \<and> map kinds (routeChoices (handleRoute fetch_error_ok s_drive)) = [[driveSafe]]
   \<and> \<not> isOk (fetch_error_noRoute driveFast) \<and> \<not> isOk (fetch_error_noRoute driveSafe)
   \<and> errorShown (handleRoute fetch_error_noRoute s_drive)
   \<and> error (handleRoute fetch_error_noRoute s_drive) = Some ''Fastest route error: timeout''"
proof -
  have ok: "\<exists>k \<in> set (variants (travelMode s_drive)). isOk (fetch_error_ok k)"
    by (simp add: concrete_defs isOk_def)
  have f1: "\<not> isOk (fetch_error_ok driveFast)" by (simp add: isOk_def)
  have m: "map kinds (routeChoices (handleRoute fetch_error_ok s_drive)) = [[driveSafe]]"
    by (simp add: handler_defs concrete_defs buildChoices_def consolidate_def consolidateStep_def
        coordsOf_def toChoice_def)
  note t = error_iff_every_variant_fails [OF routable_s_drive, of fetch_error_ok]
  have a: "error (handleRoute fetch_error_ok s_drive) = None" using t ok by blast
  have b: "\<not> errorShown (handleRoute fetch_error_ok s_drive)" using t ok by blast
  have f2: "\<not> isOk (fetch_error_noRoute driveFast)" "\<not> isOk (fetch_error_noRoute driveSafe)"
    by (simp_all add: isOk_def)
  then have all: "\<forall>k \<in> set (variants (travelMode s_drive)). \<not> isOk (fetch_error_noRoute k)"
    by (simp add: concrete_defs)
  note u = error_iff_every_variant_fails [OF routable_s_drive, of fetch_error_noRoute]
  have c: "errorShown (handleRoute fetch_error_noRoute s_drive)" using u all by blast
  have d: "error (handleRoute fetch_error_noRoute s_drive) = Some ''Fastest route error: timeout''"
    by (simp add: handler_defs concrete_defs)
  show ?thesis
    by (intro conjI) (rule routable_s_drive, rule ok, rule f1, rule a, rule b, rule m,
      rule f2, rule f2, rule c, rule d)
qed

text \<open>
  C3. For a fixed assignment of responses to variant kinds, whatever the order in which
  the per-variant requests complete, the state after the route request is the same, and
  it is the state computed from the responses in request order: so are the route
  choices (ids, labels, colors, order), the selection and the error.
\<close>

theorem route_result_independent_of_completion_order:
  assumes "mset completions1 =
             mset (zip [0..<length (variants (travelMode s))] (map fetch (variants (travelMode s))))"
    and "mset completions2 =
             mset (zip [0..<length (variants (travelMode s))] (map fetch (variants (travelMode s))))"
  shows "handleRoute_async completions1 s = handleRoute_async completions2 s
       \<and> handleRoute_async completions1 s = Some (handleRoute fetch s)"
proof -
  have "handleRoute_async cs s = Some (handleRoute fetch s)"
    if "mset cs = mset (zip [0..<length (variants (travelMode s))] (map fetch (variants (travelMode s))))"
    for cs
  proof (cases "snd (handleRoute_dispatch s)")
    case None
    then show ?thesis
      by (cases "handleRoute_dispatch s") (simp add: handleRoute_async_def handleRoute_def)
  next
    case (Some req)
    then have m: "fst req = travelMode s"
      by (auto simp: handleRoute_dispatch_def Let_def split: option.splits if_splits)
    have "promiseAll (length (map fetch (variants (travelMode s)))) cs = Some (map fetch (variants (travelMode s)))"
      by (rule promiseAll_request_order) (use that in simp)
    then have "promiseAll (length (variants (fst req))) cs = Some (map fetch (variants (fst req)))"
      using m by simp
    then show ?thesis
      using Some by (cases "handleRoute_dispatch s") (simp add: handleRoute_async_def handleRoute_def)
  qed
  from this [OF assms(1)] this [OF assms(2)] show ?thesis by simp
qed

theorem route_result_independent_of_completion_order_witness:
  "mset [(1, fetch_drive_two driveSafe), (0, fetch_drive_two driveFast)] =
     mset (zip [0..<length (variants (travelMode s_drive))] (map fetch_drive_two (variants (travelMode s_drive))))
   \<and> handleRoute_async [(1, fetch_drive_two driveSafe), (0, fetch_drive_two driveFast)] s_drive =
       handleRoute_async [(0, fetch_drive_two driveFast), (1, fetch_drive_two driveSafe)] s_drive
   \<and> handleRoute_async [(1, fetch_drive_two driveSafe), (0, fetch_drive_two driveFast)] s_drive =
       Some (handleRoute fetch_drive_two s_drive)
   \<and> map id' (routeChoices (handleRoute fetch_drive_two s_drive)) = [''driveFast'', ''driveSafe'']"
proof -
  have z: "zip [0..<length (variants (travelMode s_drive))] (map fetch_drive_two (variants (travelMode s_drive)))
      = [(0, fetch_drive_two driveFast), (1, fetch_drive_two driveSafe)]"
    by (simp add: concrete_defs upt_rec)
  have a: "mset [(1, fetch_drive_two driveSafe), (0, fetch_drive_two driveFast)] =
     mset (zip [0..<length (variants (travelMode s_drive))] (map fetch_drive_two (variants (travelMode s_drive))))"
    unfolding z by simp
  have b: "mset [(0, fetch_drive_two driveFast), (1, fetch_drive_two driveSafe)] =
     mset (zip [0..<length (variants (travelMode s_drive))] (map fetch_drive_two (variants (travelMode s_drive))))"
    unfolding z by simp
  have ids: "map id' (routeChoices (handleRoute fetch_drive_two s_drive)) = [''driveFast'', ''driveSafe'']"
    by (simp add: handler_defs concrete_defs buildChoices_def consolidate_def consolidateStep_def
        coordsOf_def toChoice_def choiceRank_def)
  from route_result_independent_of_completion_order [OF a b] a ids show ?thesis by blast
qed

text \<open>
  C4. For a route request that passes validation and two variants of it whose
  responses are \<open>ok\<close>: if their coordinate sequences are equal, exactly one route choice
  contains the first kind, and it contains both kinds; if their coordinate sequences
  differ, two different route choices contain them, and neither contains the other's
  kind. No two route choices of the list share a kind or have equal coordinate
  sequences.
\<close>

theorem dedup_by_coordinates:
  assumes "routable s"
    and "k1 \<in> set (variants (travelMode s))" and "k2 \<in> set (variants (travelMode s))"
    and "fetch k1 = RouteOk d1" and "fetch k2 = RouteOk d2"
  shows "(coordsOf d1 = coordsOf d2 \<longrightarrow>
            (\<exists>!c. c \<in> set (routeChoices (handleRoute fetch s)) \<and> k1 \<in> set (kinds c))
          \<and> (\<exists>c \<in> set (routeChoices (handleRoute fetch s)). k1 \<in> set (kinds c) \<and> k2 \<in> set (kinds c)))
       \<and> (coordsOf d1 \<noteq> coordsOf d2 \<longrightarrow>
            (\<exists>c1 \<in> set (routeChoices (handleRoute fetch s)).
             \<exists>c2 \<in> set (routeChoices (handleRoute fetch s)).
               c1 \<noteq> c2 \<and> k1 \<in> set (kinds c1) \<and> k2 \<in> set (kinds c2)
             \<and> k2 \<notin> set (kinds c1) \<and> k1 \<notin> set (kinds c2)))
       \<and> (\<forall>i < length (routeChoices (handleRoute fetch s)).
          \<forall>j < length (routeChoices (handleRoute fetch s)).
            i \<noteq> j \<longrightarrow>
              set (kinds (routeChoices (handleRoute fetch s) ! i))
                \<inter> set (kinds (routeChoices (handleRoute fetch s) ! j)) = {}
            \<and> coordsOf (result (routeChoices (handleRoute fetch s) ! i))
                \<noteq> coordsOf (result (routeChoices (handleRoute fetch s) ! j)))"
proof -
  let ?vs = "variants (travelMode s)"
  let ?cs = "buildChoices (travelMode s) (okRoutesOf fetch ?vs)"
  have cs: "routeChoices (handleRoute fetch s) = ?cs" by (rule handleRoute_choices [OF assms(1)])
  have dist: "distinct (map (\<lambda>c. coordsOf (result c)) ?cs)" by (rule buildChoices_distinct)
  have same: "c = c'" if "c \<in> set ?cs" "c' \<in> set ?cs" "coordsOf (result c) = coordsOf (result c')" for c c'
    using that dist by (auto simp: distinct_map inj_on_def)
  have kind_coords: "coordsOf (result c) = coordsOf d"
    if "c \<in> set ?cs" "k \<in> set (kinds c)" "fetch k = RouteOk d" for c k d
    using that by (simp add: choice_kind_iff sameGeometry_def)
  from choice_exists [where fetch = fetch and d = d1, OF assms(2) assms(4)] obtain c1
    where c1: "c1 \<in> set ?cs" "k1 \<in> set (kinds c1)" "coordsOf (result c1) = coordsOf d1" by blast
  from choice_exists [where fetch = fetch and d = d2, OF assms(3) assms(5)] obtain c2
    where c2: "c2 \<in> set ?cs" "k2 \<in> set (kinds c2)" "coordsOf (result c2) = coordsOf d2" by blast
  have uniq: "\<exists>!c. c \<in> set ?cs \<and> k1 \<in> set (kinds c)"
  proof (rule ex1I [of _ c1])
    show "c1 \<in> set ?cs \<and> k1 \<in> set (kinds c1)" using c1 by simp
  next
    fix c assume "c \<in> set ?cs \<and> k1 \<in> set (kinds c)"
    then have "c \<in> set ?cs" "coordsOf (result c) = coordsOf d1"
      using kind_coords [of c k1 d1] assms(4) by simp_all
    then show "c = c1" using same [of c c1] c1 by simp
  qed
  have A: "coordsOf d1 = coordsOf d2 \<longrightarrow>
            (\<exists>!c. c \<in> set ?cs \<and> k1 \<in> set (kinds c))
          \<and> (\<exists>c \<in> set ?cs. k1 \<in> set (kinds c) \<and> k2 \<in> set (kinds c))"
  proof
    assume eq: "coordsOf d1 = coordsOf d2"
    then have "c1 = c2" using same [of c1 c2] c1 c2 by simp
    then have "\<exists>c \<in> set ?cs. k1 \<in> set (kinds c) \<and> k2 \<in> set (kinds c)" using c1 c2 by blast
    with uniq show "(\<exists>!c. c \<in> set ?cs \<and> k1 \<in> set (kinds c))
          \<and> (\<exists>c \<in> set ?cs. k1 \<in> set (kinds c) \<and> k2 \<in> set (kinds c))" by simp
  qed
  have B: "coordsOf d1 \<noteq> coordsOf d2 \<longrightarrow>
            (\<exists>c1 \<in> set ?cs. \<exists>c2 \<in> set ?cs.
               c1 \<noteq> c2 \<and> k1 \<in> set (kinds c1) \<and> k2 \<in> set (kinds c2)
             \<and> k2 \<notin> set (kinds c1) \<and> k1 \<notin> set (kinds c2))"
  proof
    assume ne: "coordsOf d1 \<noteq> coordsOf d2"
    have "c1 \<noteq> c2" using ne c1(3) c2(3) by auto
    moreover have "k2 \<notin> set (kinds c1)"
      using kind_coords [of c1 k2 d2] c1 assms(5) ne by auto
    moreover have "k1 \<notin> set (kinds c2)"
      using kind_coords [of c2 k1 d1] c2 assms(4) ne by auto
    ultimately show "\<exists>c1 \<in> set ?cs. \<exists>c2 \<in> set ?cs.
               c1 \<noteq> c2 \<and> k1 \<in> set (kinds c1) \<and> k2 \<in> set (kinds c2)
             \<and> k2 \<notin> set (kinds c1) \<and> k1 \<notin> set (kinds c2)"
      using c1 c2 by blast
  qed
  have C: "\<forall>i < length ?cs. \<forall>j < length ?cs. i \<noteq> j \<longrightarrow>
              set (kinds (?cs ! i)) \<inter> set (kinds (?cs ! j)) = {}
            \<and> coordsOf (result (?cs ! i)) \<noteq> coordsOf (result (?cs ! j))"
  proof (intro allI impI)
    fix i j assume i: "i < length ?cs" and j: "j < length ?cs" and ij: "i \<noteq> j"
    have ne: "coordsOf (result (?cs ! i)) \<noteq> coordsOf (result (?cs ! j))"
      using dist i j ij by (simp add: distinct_conv_nth)
    have ci: "?cs ! i \<in> set ?cs" and cj: "?cs ! j \<in> set ?cs" using i j by simp_all
    have "set (kinds (?cs ! i)) \<inter> set (kinds (?cs ! j)) = {}"
    proof (rule ccontr)
      assume "set (kinds (?cs ! i)) \<inter> set (kinds (?cs ! j)) \<noteq> {}"
      then obtain k where k: "k \<in> set (kinds (?cs ! i))" "k \<in> set (kinds (?cs ! j))" by blast
      then have "sameGeometry fetch (coordsOf (result (?cs ! i))) k"
        and "sameGeometry fetch (coordsOf (result (?cs ! j))) k"
        using choice_kind_iff [OF ci] choice_kind_iff [OF cj] by simp_all
      then show False using ne by (auto simp: sameGeometry_def split: RouteResponse.splits)
    qed
    then show "set (kinds (?cs ! i)) \<inter> set (kinds (?cs ! j)) = {}
            \<and> coordsOf (result (?cs ! i)) \<noteq> coordsOf (result (?cs ! j))"
      using ne by simp
  qed
  show ?thesis unfolding cs by (intro conjI) (rule A, rule B, rule C)
qed

theorem dedup_by_coordinates_witness:
  "routable s_drive
   \<and> fetch_drive_merge driveFast = RouteOk routeA \<and> fetch_drive_merge driveSafe = RouteOk routeA'
   \<and> coordsOf routeA = coordsOf routeA'
   \<and> map kinds (routeChoices (handleRoute fetch_drive_merge s_drive)) = [[driveFast, driveSafe]]
   \<and> (\<exists>c \<in> set (routeChoices (handleRoute fetch_drive_merge s_drive)).
         driveFast \<in> set (kinds c) \<and> driveSafe \<in> set (kinds c))
   \<and> fetch_drive_two driveFast = RouteOk routeB \<and> fetch_drive_two driveSafe = RouteOk routeA
   \<and> coordsOf routeB \<noteq> coordsOf routeA
   \<and> map kinds (routeChoices (handleRoute fetch_drive_two s_drive)) = [[driveFast], [driveSafe]]
   \<and> (\<exists>c1 \<in> set (routeChoices (handleRoute fetch_drive_two s_drive)).
       \<exists>c2 \<in> set (routeChoices (handleRoute fetch_drive_two s_drive)).
         c1 \<noteq> c2 \<and> driveFast \<in> set (kinds c1) \<and> driveSafe \<in> set (kinds c2)
         \<and> driveSafe \<notin> set (kinds c1) \<and> driveFast \<notin> set (kinds c2))"
proof -
  have v: "driveFast \<in> set (variants (travelMode s_drive))" "driveSafe \<in> set (variants (travelMode s_drive))"
    by (simp_all add: concrete_defs)
  have eq: "coordsOf routeA = coordsOf routeA'" by (simp add: coordsOf_def concrete_defs)
  have ne: "coordsOf routeB \<noteq> coordsOf routeA" by (simp add: coordsOf_def concrete_defs)
  have m1: "map kinds (routeChoices (handleRoute fetch_drive_merge s_drive)) = [[driveFast, driveSafe]]"
    by (simp add: handler_defs concrete_defs buildChoices_def consolidate_def consolidateStep_def
        coordsOf_def toChoice_def)
  have m2: "map kinds (routeChoices (handleRoute fetch_drive_two s_drive)) = [[driveFast], [driveSafe]]"
    by (simp add: handler_defs concrete_defs buildChoices_def consolidate_def consolidateStep_def
        coordsOf_def toChoice_def choiceRank_def)
  have f1: "fetch_drive_merge driveFast = RouteOk routeA" "fetch_drive_merge driveSafe = RouteOk routeA'"
    by simp_all
  have f2: "fetch_drive_two driveFast = RouteOk routeB" "fetch_drive_two driveSafe = RouteOk routeA"
    by simp_all
  from dedup_by_coordinates [OF routable_s_drive v f1] eq
  have a: "\<exists>c \<in> set (routeChoices (handleRoute fetch_drive_merge s_drive)).
         driveFast \<in> set (kinds c) \<and> driveSafe \<in> set (kinds c)" by blast
  from dedup_by_coordinates [OF routable_s_drive v f2] ne
  have b: "\<exists>c1 \<in> set (routeChoices (handleRoute fetch_drive_two s_drive)).
       \<exists>c2 \<in> set (routeChoices (handleRoute fetch_drive_two s_drive)).
         c1 \<noteq> c2 \<and> driveFast \<in> set (kinds c1) \<and> driveSafe \<in> set (kinds c2)
         \<and> driveSafe \<notin> set (kinds c1) \<and> driveFast \<notin> set (kinds c2)" by blast
  show ?thesis
    by (intro conjI) (rule routable_s_drive, rule f1, rule f1, rule eq, rule m1, rule a,
      rule f2, rule f2, rule ne, rule m2, rule b)
qed



text \<open>
  C6 on the geocode path. The user clicks Find for the start place (the route state is
  cleared and the geocoder is asked), then clicks Route; the two drive responses arrive
  and give two route choices; then the geocoder's answer arrives and
  \<open>applyGeocodeResult\<close> assigns the new start. The start has changed, and the route
  choices and the selection computed for the old start are still there.
\<close>

theorem geocode_assignment_keeps_stale_routes:
  "snd (handlePlaceSearch_dispatch StartPoint s_drive) = Some ''Ithaca''
   \<and> snd (handleRoute_dispatch (run [PlaceSearchClicked StartPoint] s_drive)) = Some (DRIVE, Some bounds0)
   \<and> routeChoices (run [PlaceSearchClicked StartPoint] s_drive) = []
   \<and> start (run [PlaceSearchClicked StartPoint, RouteClicked,
               RouteResponsesArrived (DRIVE, Some bounds0) (map fetch_drive_two (variants DRIVE))] s_drive)
       = Some \<lparr>lat = 1, lon = 2\<rparr>
   \<and> start (run [PlaceSearchClicked StartPoint, RouteClicked,
               RouteResponsesArrived (DRIVE, Some bounds0) (map fetch_drive_two (variants DRIVE)),
               GeocodeArrived StartPoint (GeocodeOk 10 20 ''Ithaca Commons'')] s_drive)
       = Some \<lparr>lat = 10, lon = 20\<rparr>
   \<and> map id' (routeChoices (run [PlaceSearchClicked StartPoint, RouteClicked,
               RouteResponsesArrived (DRIVE, Some bounds0) (map fetch_drive_two (variants DRIVE)),
               GeocodeArrived StartPoint (GeocodeOk 10 20 ''Ithaca Commons'')] s_drive))
       = [''driveFast'', ''driveSafe'']
   \<and> selectedRouteId (run [PlaceSearchClicked StartPoint, RouteClicked,
               RouteResponsesArrived (DRIVE, Some bounds0) (map fetch_drive_two (variants DRIVE)),
               GeocodeArrived StartPoint (GeocodeOk 10 20 ''Ithaca Commons'')] s_drive)
       = Some ''driveFast''"
  by (simp add: event_defs handler_defs concrete_defs choice_defs)

theorem geocode_assignment_keeps_stale_routes_witness:
  "routable s_drive
   \<and> start (run [PlaceSearchClicked StartPoint, RouteClicked,
               RouteResponsesArrived (DRIVE, Some bounds0) (map fetch_drive_two (variants DRIVE)),
               GeocodeArrived StartPoint (GeocodeOk 10 20 ''Ithaca Commons'')] s_drive) \<noteq> start s_drive
   \<and> routeChoices (run [PlaceSearchClicked StartPoint, RouteClicked,
               RouteResponsesArrived (DRIVE, Some bounds0) (map fetch_drive_two (variants DRIVE)),
               GeocodeArrived StartPoint (GeocodeOk 10 20 ''Ithaca Commons'')] s_drive) \<noteq> []
   \<and> selectedRouteId (run [PlaceSearchClicked StartPoint, RouteClicked,
               RouteResponsesArrived (DRIVE, Some bounds0) (map fetch_drive_two (variants DRIVE)),
               GeocodeArrived StartPoint (GeocodeOk 10 20 ''Ithaca Commons'')] s_drive) \<noteq> None"
proof -
  let ?s = "run [PlaceSearchClicked StartPoint, RouteClicked,
               RouteResponsesArrived (DRIVE, Some bounds0) (map fetch_drive_two (variants DRIVE)),
               GeocodeArrived StartPoint (GeocodeOk 10 20 ''Ithaca Commons'')] s_drive"
  note t = geocode_assignment_keeps_stale_routes
  have a: "start ?s = Some \<lparr>lat = 10, lon = 20\<rparr>" using t by blast
  have b: "map id' (routeChoices ?s) = [''driveFast'', ''driveSafe'']" using t by blast
  have c: "selectedRouteId ?s = Some ''driveFast''" using t by blast
  have "start s_drive = Some \<lparr>lat = 1, lon = 2\<rparr>" by (simp add: concrete_defs)
  then have a': "start ?s \<noteq> start s_drive" unfolding a by simp
  have b': "routeChoices ?s \<noteq> []" using b by auto
  have c': "selectedRouteId ?s \<noteq> None" unfolding c by simp
  show ?thesis by (intro conjI) (rule routable_s_drive, rule a', rule b', rule c')
qed

text \<open>
  C7 on the marker fetch of \<open>handleRoute\<close>. The route responses arrive and
  \<open>handleRoute\<close> issues its marker fetch for the one merged route choice; the user
  clicks the map, which empties the route choices and the markers; then the marker
  response arrives. It is not discarded: the markers are stored under the id of a route
  choice that is no longer there.
\<close>

theorem route_marker_fetch_is_not_discarded:
  "snd (handleRoute_responses (DRIVE, Some bounds0) (map fetch_drive_merge (variants DRIVE))
          (run [RouteClicked] s_drive))
     = Some (bounds0, routeChoices (run [RouteClicked,
               RouteResponsesArrived (DRIVE, Some bounds0) (map fetch_drive_merge (variants DRIVE))] s_drive))
   \<and> map id' (routeChoices (run [RouteClicked,
               RouteResponsesArrived (DRIVE, Some bounds0) (map fetch_drive_merge (variants DRIVE))] s_drive))
     = [''driveFast-driveSafe'']
   \<and> routeChoices (run [RouteClicked,
               RouteResponsesArrived (DRIVE, Some bounds0) (map fetch_drive_merge (variants DRIVE)),
               MapClicked 5 6] s_drive) = []
   \<and> routeMarkers (run [RouteClicked,
               RouteResponsesArrived (DRIVE, Some bounds0) (map fetch_drive_merge (variants DRIVE)),
               MapClicked 5 6] s_drive) = Map.empty
   \<and> routeChoices (run [RouteClicked,
               RouteResponsesArrived (DRIVE, Some bounds0) (map fetch_drive_merge (variants DRIVE)),
               MapClicked 5 6,
               RouteMarkersArrived (routeChoices (run [RouteClicked,
                 RouteResponsesArrived (DRIVE, Some bounds0) (map fetch_drive_merge (variants DRIVE))] s_drive))
                 (MarkersOk markers0)] s_drive) = []
   \<and> routeMarkers (run [RouteClicked,
               RouteResponsesArrived (DRIVE, Some bounds0) (map fetch_drive_merge (variants DRIVE)),
               MapClicked 5 6,
               RouteMarkersArrived (routeChoices (run [RouteClicked,
                 RouteResponsesArrived (DRIVE, Some bounds0) (map fetch_drive_merge (variants DRIVE))] s_drive))
                 (MarkersOk markers0)] s_drive) ''driveFast-driveSafe'' = Some markers0"
  by (simp add: event_defs handler_defs concrete_defs choice_defs)

theorem route_marker_fetch_is_not_discarded_witness:
  "routable s_drive
   \<and> mapBounds s_drive = Some bounds0
   \<and> routeChoices (run [RouteClicked,
               RouteResponsesArrived (DRIVE, Some bounds0) (map fetch_drive_merge (variants DRIVE)),
               MapClicked 5 6] s_drive) = []
   \<and> routeMarkers (run [RouteClicked,
               RouteResponsesArrived (DRIVE, Some bounds0) (map fetch_drive_merge (variants DRIVE)),
               MapClicked 5 6,
               RouteMarkersArrived (routeChoices (run [RouteClicked,
                 RouteResponsesArrived (DRIVE, Some bounds0) (map fetch_drive_merge (variants DRIVE))] s_drive))
                 (MarkersOk markers0)] s_drive) \<noteq> Map.empty
   \<and> markerEffect_result True (routeChoices (run [RouteClicked,
                 RouteResponsesArrived (DRIVE, Some bounds0) (map fetch_drive_merge (variants DRIVE))] s_drive))
                 (MarkersOk markers0)
         (run [RouteClicked,
               RouteResponsesArrived (DRIVE, Some bounds0) (map fetch_drive_merge (variants DRIVE)),
               MapClicked 5 6] s_drive)
       = run [RouteClicked,
               RouteResponsesArrived (DRIVE, Some bounds0) (map fetch_drive_merge (variants DRIVE)),
               MapClicked 5 6] s_drive"
proof -
  note t = route_marker_fetch_is_not_discarded
  let ?cs = "routeChoices (run [RouteClicked,
                 RouteResponsesArrived (DRIVE, Some bounds0) (map fetch_drive_merge (variants DRIVE))] s_drive)"
  let ?s3 = "run [RouteClicked,
               RouteResponsesArrived (DRIVE, Some bounds0) (map fetch_drive_merge (variants DRIVE)),
               MapClicked 5 6] s_drive"
  let ?s4 = "run [RouteClicked,
               RouteResponsesArrived (DRIVE, Some bounds0) (map fetch_drive_merge (variants DRIVE)),
               MapClicked 5 6, RouteMarkersArrived ?cs (MarkersOk markers0)] s_drive"
  have m: "mapBounds s_drive = Some bounds0" by (simp add: concrete_defs)
  have a: "routeChoices ?s3 = []" using t by blast
  have "routeMarkers ?s4 ''driveFast-driveSafe'' = Some markers0" using t by blast
  then have b: "routeMarkers ?s4 \<noteq> Map.empty" by auto
  have c: "markerEffect_result True ?cs (MarkersOk markers0) ?s3 = ?s3"
    by (rule markerEffect_cancelled)
  show ?thesis by (intro conjI) (rule routable_s_drive, rule m, rule a, rule b, rule c)
qed

text \<open>
  C8, as stated, fails. The user clicks the map, which sets the start, and clicks Clear;
  then the first device location fix arrives. The start has been set by another means
  before, and the fix still becomes the default start: the test is on the start at the
  moment of the fix. Likewise a first fix that finds the start set leaves the latch
  unconsumed, and a later fix that finds the start cleared becomes the default start.
\<close>

theorem device_default_counterexample:
  "start (run [MapClicked 1 2] initialState) = Some \<lparr>lat = 1, lon = 2\<rparr>
   \<and> start (run [MapClicked 1 2, ClearClicked] initialState) = None
   \<and> \<not> hasDefaultedStart (run [MapClicked 1 2, ClearClicked] initialState)
   \<and> start (run [MapClicked 1 2, ClearClicked, PositionArrived 3 4 5] initialState)
       = Some \<lparr>lat = 3, lon = 4\<rparr>
   \<and> startPlace (run [MapClicked 1 2, ClearClicked, PositionArrived 3 4 5] initialState)
       = ''Current location''
   \<and> \<not> hasDefaultedStart (run [MapClicked 1 2, PositionArrived 3 4 5] initialState)
   \<and> start (run [MapClicked 1 2, PositionArrived 3 4 5, ClearClicked, PositionArrived 6 7 5] initialState)
       = Some \<lparr>lat = 6, lon = 7\<rparr>"
  by (simp add: event_defs concrete_defs clearRouteState_def)

text \<open>
  C8, amended. A device location fix becomes the default start if and only if the latch
  is not consumed and the start is unset at the moment of the fix; the latch is
  consumed exactly then, the reverse geocoding request goes out exactly then, and once
  consumed the latch stays consumed through every sequence of events, so that no later
  fix changes the start. The label of the reverse geocoding answer is applied only if
  the start is set and within 1e-6, in each component, of the coordinate of the fix;
  otherwise the state is left as it is.
\<close>

theorem device_default_latch:
  "start (fst (requestDeviceLocation_success la lo accuracy s)) =
     (if \<not> hasDefaultedStart s \<and> start s = None then Some \<lparr>lat = la, lon = lo\<rparr> else start s)
   \<and> hasDefaultedStart (fst (requestDeviceLocation_success la lo accuracy s)) =
       (hasDefaultedStart s \<or> start s = None)
   \<and> snd (requestDeviceLocation_success la lo accuracy s) =
       (if \<not> hasDefaultedStart s \<and> start s = None then Some \<lparr>lat = la, lon = lo\<rparr> else None)
   \<and> (hasDefaultedStart s \<longrightarrow>
         hasDefaultedStart (run events s)
       \<and> start (fst (requestDeviceLocation_success la lo accuracy (run events s))) = start (run events s))
   \<and> reverseGeocode_result defaultLocation res s =
       (case res of
          ReverseFailed \<Rightarrow> s
        | ReverseOk lbl \<Rightarrow>
            if \<exists>latestStart. start s = Some latestStart
                 \<and> \<bar>lat latestStart - lat defaultLocation\<bar> < 1 / 1000000
                 \<and> \<bar>lon latestStart - lon defaultLocation\<bar> < 1 / 1000000
            then s\<lparr>startPlace := lbl\<rparr> else s)"
proof -
  have A: "start (fst (requestDeviceLocation_success la lo accuracy s)) =
     (if \<not> hasDefaultedStart s \<and> start s = None then Some \<lparr>lat = la, lon = lo\<rparr> else start s)"
    by (simp add: requestDeviceLocation_success_def Let_def)
  have B: "hasDefaultedStart (fst (requestDeviceLocation_success la lo accuracy s)) =
       (hasDefaultedStart s \<or> start s = None)"
    by (auto simp: requestDeviceLocation_success_def Let_def)
  have C: "snd (requestDeviceLocation_success la lo accuracy s) =
       (if \<not> hasDefaultedStart s \<and> start s = None then Some \<lparr>lat = la, lon = lo\<rparr> else None)"
    by (simp add: requestDeviceLocation_success_def Let_def)
  have D: "hasDefaultedStart s \<longrightarrow>
         hasDefaultedStart (run events s)
       \<and> start (fst (requestDeviceLocation_success la lo accuracy (run events s))) = start (run events s)"
    using run_keeps_latch [of s events] by (simp add: requestDeviceLocation_success_def Let_def)
  have E: "reverseGeocode_result defaultLocation res s =
       (case res of
          ReverseFailed \<Rightarrow> s
        | ReverseOk lbl \<Rightarrow>
            if \<exists>latestStart. start s = Some latestStart
                 \<and> \<bar>lat latestStart - lat defaultLocation\<bar> < 1 / 1000000
                 \<and> \<bar>lon latestStart - lon defaultLocation\<bar> < 1 / 1000000
            then s\<lparr>startPlace := lbl\<rparr> else s)"
    by (auto simp: reverseGeocode_result_def isSameLocation_def
        split: ReverseGeocodeResponse.splits option.splits)
  show ?thesis
    by (intro conjI) (rule A, rule B, rule C, rule D, rule E)
qed

theorem device_default_latch_witness:
  "start (fst (requestDeviceLocation_success 3 4 5 initialState)) = Some \<lparr>lat = 3, lon = 4\<rparr>
   \<and> hasDefaultedStart (fst (requestDeviceLocation_success 3 4 5 initialState))
   \<and> hasDefaultedStart (run [ClearClicked] (fst (requestDeviceLocation_success 3 4 5 initialState)))
   \<and> start (fst (requestDeviceLocation_success 6 7 5
        (run [ClearClicked] (fst (requestDeviceLocation_success 3 4 5 initialState))))) = None
   \<and> startPlace (reverseGeocode_result \<lparr>lat = 3, lon = 4\<rparr> (ReverseOk ''Ithaca Commons'')
        (fst (requestDeviceLocation_success 3 4 5 initialState))) = ''Ithaca Commons''
   \<and> startPlace (reverseGeocode_result \<lparr>lat = 3, lon = 4\<rparr> (ReverseOk ''Ithaca Commons'')
        (run [StartInputsEdited (Some 8) (Some 9)] (fst (requestDeviceLocation_success 3 4 5 initialState)))) = []"
proof -
  let ?s1 = "fst (requestDeviceLocation_success 3 4 5 initialState)"
  have i: "\<not> hasDefaultedStart initialState" "start initialState = None"
    by (simp_all add: initialState_def)
  have a: "start ?s1 = Some \<lparr>lat = 3, lon = 4\<rparr>" and b: "hasDefaultedStart ?s1"
    using device_default_latch [of 3 4 5 initialState] i by simp_all
  have c: "hasDefaultedStart (run [ClearClicked] ?s1)"
    and d': "start (fst (requestDeviceLocation_success 6 7 5 (run [ClearClicked] ?s1))) = start (run [ClearClicked] ?s1)"
    using device_default_latch [of 6 7 5 ?s1 "[ClearClicked]"] b by blast+
  have "start (run [ClearClicked] ?s1) = None" by (simp add: run_def handleClear_def)
  with d' have d: "start (fst (requestDeviceLocation_success 6 7 5 (run [ClearClicked] ?s1))) = None" by simp
  have s1: "startPlace ?s1 = ''Current location''"
    by (simp add: requestDeviceLocation_success_def Let_def initialState_def)
  have e: "startPlace (reverseGeocode_result \<lparr>lat = 3, lon = 4\<rparr> (ReverseOk ''Ithaca Commons'') ?s1)
      = ''Ithaca Commons''"
    using device_default_latch [of 3 4 5 ?s1 "[]" "\<lparr>lat = 3, lon = 4\<rparr>" "ReverseOk ''Ithaca Commons''"] a
    by simp
  let ?s2 = "run [StartInputsEdited (Some 8) (Some 9)] ?s1"
  have s2: "start ?s2 = Some \<lparr>lat = 8, lon = 9\<rparr>" "startPlace ?s2 = []"
    by (simp_all add: run_def updateStartFromInputs_def clearRouteState_def isValidLat_def isValidLon_def)
  have f: "startPlace (reverseGeocode_result \<lparr>lat = 3, lon = 4\<rparr> (ReverseOk ''Ithaca Commons'') ?s2) = []"
    using device_default_latch [of 3 4 5 ?s2 "[]" "\<lparr>lat = 3, lon = 4\<rparr>" "ReverseOk ''Ithaca Commons''"] s2
    by simp
  show ?thesis
    by (intro conjI) (rule a, rule b, rule c, rule d, rule e, rule f)
qed

text \<open>
  C9. A map click while hazard pick mode is on sets the hazard location to the clicked
  coordinate, turns hazard pick mode off and changes nothing else, in particular neither
  \<open>start\<close> nor \<open>end\<close>; the next map click is handled by \<open>handleMapClick\<close>, as a
  start/end click.
\<close>

theorem hazard_pick_click_is_one_shot:
  assumes "hazardPickMode s"
  shows "mapClick la lo s = s\<lparr>hazardPickMode := False, hazardLocation := Some \<lparr>lat = la, lon = lo\<rparr>\<rparr>
       \<and> hazardLocation (mapClick la lo s) = Some \<lparr>lat = la, lon = lo\<rparr>
       \<and> \<not> hazardPickMode (mapClick la lo s)
       \<and> start (mapClick la lo s) = start s \<and> endPt (mapClick la lo s) = endPt s
       \<and> mapClick la' lo' (mapClick la lo s) = handleMapClick la' lo' (mapClick la lo s)"
  using assms by (simp add: mapClick_def onHazardPick_def)

theorem hazard_pick_click_is_one_shot_witness:
  "hazardPickMode (toggleHazardPick s_walk)
   \<and> hazardLocation (mapClick 5 6 (toggleHazardPick s_walk)) = Some \<lparr>lat = 5, lon = 6\<rparr>
   \<and> \<not> hazardPickMode (mapClick 5 6 (toggleHazardPick s_walk))
   \<and> start (mapClick 5 6 (toggleHazardPick s_walk)) = Some \<lparr>lat = 1, lon = 2\<rparr>
   \<and> endPt (mapClick 5 6 (toggleHazardPick s_walk)) = Some \<lparr>lat = 3, lon = 4\<rparr>
   \<and> start (mapClick 7 8 (mapClick 5 6 (toggleHazardPick s_walk))) = Some \<lparr>lat = 7, lon = 8\<rparr>
   \<and> endPt (mapClick 7 8 (mapClick 5 6 (toggleHazardPick s_walk))) = None"
proof -
  have h: "hazardPickMode (toggleHazardPick s_walk)"
    by (simp add: toggleHazardPick_def concrete_defs)
  have s: "start (toggleHazardPick s_walk) = Some \<lparr>lat = 1, lon = 2\<rparr>"
    "endPt (toggleHazardPick s_walk) = Some \<lparr>lat = 3, lon = 4\<rparr>"
    by (simp_all add: toggleHazardPick_def concrete_defs)
  note t = hazard_pick_click_is_one_shot [OF h, of 5 6 7 8]
  let ?s1 = "mapClick 5 6 (toggleHazardPick s_walk)"
  have p: "hazardLocation ?s1 = Some \<lparr>lat = 5, lon = 6\<rparr>" "\<not> hazardPickMode ?s1"
    using t by blast+
  have st: "start ?s1 = Some \<lparr>lat = 1, lon = 2\<rparr>" "endPt ?s1 = Some \<lparr>lat = 3, lon = 4\<rparr>"
    using t s by simp_all
  have e: "mapClick 7 8 ?s1 = handleMapClick 7 8 ?s1" using t by blast
  have n: "start (mapClick 7 8 ?s1) = Some \<lparr>lat = 7, lon = 8\<rparr>" "endPt (mapClick 7 8 ?s1) = None"
    unfolding e by (simp_all add: handleMapClick_def Let_def st)
  show ?thesis
    by (intro conjI) (rule h, rule p, rule p, rule st, rule st, rule n, rule n)
qed

text \<open>
  C10. When several \<open>ok\<close> variants merge into one route choice, its \<open>result\<close> is the
  result of the first contributing variant in request order, whatever the results of
  the other contributing variants are.
\<close>

theorem merged_route_keeps_first_result:
  assumes "routable s" and "c \<in> set (routeChoices (handleRoute fetch s))"
  shows "\<exists>k0. find (\<lambda>k. k \<in> set (kinds c)) (variants (travelMode s)) = Some k0
              \<and> fetch k0 = RouteOk (result c)"
proof -
  let ?vs = "variants (travelMode s)"
  let ?P = "sameGeometry fetch (coordsOf (result c))"
  have cin: "c \<in> set (buildChoices (travelMode s) (okRoutesOf fetch ?vs))"
    using assms by (simp add: handleRoute_choices)
  have "kinds c \<noteq> []" by (rule choice_shape(2) [OF cin])
  then obtain k where "k \<in> set (kinds c)" by (cases "kinds c") auto
  then have "k \<in> set ?vs \<and> ?P k" by (simp add: choice_kind_iff [OF cin])
  then have ne: "filter ?P ?vs \<noteq> []" by (auto simp: filter_empty_conv)
  have "find (\<lambda>k. k \<in> set (kinds c)) ?vs = find ?P ?vs"
    by (rule find_cong [OF refl]) (simp add: choice_kind_iff [OF cin])
  then have "find (\<lambda>k. k \<in> set (kinds c)) ?vs = Some (hd (filter ?P ?vs))"
    by (simp add: find_hd_filter [OF ne])
  then show ?thesis using choice_shape(3) [OF cin] by simp
qed

theorem merged_route_keeps_first_result_witness:
  "routable s_walk
   \<and> routeChoices (handleRoute fetch_walk_merge s_walk) =
       [\<lparr>id' = ''walkSafe-walkAccessible'', kinds = [walkSafe, walkAccessible], result = routeA,
         color = ''#16a34a'', label = ''Safe'' @ labelSeparator @ ''Accessible''\<rparr>]
   \<and> fetch_walk_merge walkAccessible = RouteOk routeA'
   \<and> distanceMeters routeA' \<noteq> distanceMeters routeA
   \<and> (\<exists>k0. find (\<lambda>k. k \<in> set [walkSafe, walkAccessible]) (variants (travelMode s_walk)) = Some k0
          \<and> fetch_walk_merge k0 = RouteOk routeA)"
proof -
  have cs: "routeChoices (handleRoute fetch_walk_merge s_walk) =
       [\<lparr>id' = ''walkSafe-walkAccessible'', kinds = [walkSafe, walkAccessible], result = routeA,
         color = ''#16a34a'', label = ''Safe'' @ labelSeparator @ ''Accessible''\<rparr>]"
    by (simp add: handler_defs concrete_defs buildChoices_def consolidate_def consolidateStep_def
        coordsOf_def toChoice_def labelSeparator_def)
  then have "\<lparr>id' = ''walkSafe-walkAccessible'', kinds = [walkSafe, walkAccessible], result = routeA,
         color = ''#16a34a'', label = ''Safe'' @ labelSeparator @ ''Accessible''\<rparr>
       \<in> set (routeChoices (handleRoute fetch_walk_merge s_walk))" by simp
  from merged_route_keeps_first_result [OF routable_s_walk this] cs routable_s_walk
  show ?thesis by (simp add: routeA_def routeA'_def)
qed

end
